theory Spec2Isabelle
  imports Complex_Main
begin

section \<open>Heatmap-Clips: a shallow embedding of \<^verbatim>\<open>heatmap_clips.py\<close>\<close>

text \<open>
  Python exceptions are values of the type \<open>error\<close>; a function that may raise returns
  \<open>error + 'a\<close>, with \<open>Inl\<close> for the exception.
\<close>

datatype error = ValueError | OverflowError | TypeError | KeyError | NameError

subsection \<open>Numbers and \<^verbatim>\<open>datetime.time\<close>\<close>

text \<open>
  A Python number is an unbounded \<open>int\<close> or a \<open>float\<close>. Every finite float is a rational
  number, so a float is modelled by the rational it denotes (NaN and the infinities are
  left out).
\<close>

datatype number = PyInt int | PyFloat rat

text \<open>
  \<^verbatim>\<open>datetime.time(hour, minute, second)\<close>: this program only ever calls the constructor
  with three arguments, so the microsecond field is always zero and is left out. The
  constructor of CPython first converts its arguments to C integers and raises
  \<^verbatim>\<open>OverflowError\<close> if one of them is below \<open>- 2\<^sup>3\<^sup>1\<close> or not below \<open>2\<^sup>3\<^sup>1\<close>; then
  it raises \<^verbatim>\<open>ValueError\<close> unless \<open>0 \<le> hour < 24\<close>, \<open>0 \<le> minute < 60\<close> and
  \<open>0 \<le> second < 60\<close>.
\<close>

record time =
  hour :: int
  minute :: int
  second :: int

definition c_int :: "int \<Rightarrow> bool" where
  "c_int n \<longleftrightarrow> - 2147483648 \<le> n \<and> n < 2147483648"

definition datetime_time :: "int \<Rightarrow> int \<Rightarrow> int \<Rightarrow> error + time" where
  "datetime_time h m s =
     (if \<not> c_int h \<or> \<not> c_int m \<or> \<not> c_int s then Inl OverflowError
      else if h < 0 \<or> 23 < h then Inl ValueError
      else if m < 0 \<or> 59 < m then Inl ValueError
      else if s < 0 \<or> 59 < s then Inl ValueError
      else Inr \<lparr>hour = h, minute = m, second = s\<rparr>)"

text \<open>
  \<^verbatim>\<open>datetime.time\<close> values compare field by field (hour, then minute, then second).
\<close>

definition time_le :: "time \<Rightarrow> time \<Rightarrow> bool" where
  "time_le a b \<longleftrightarrow>
     hour a < hour b \<or>
     (hour a = hour b \<and>
       (minute a < minute b \<or> (minute a = minute b \<and> second a \<le> second b)))"

text \<open>\<^verbatim>\<open>int(x)\<close> on a float truncates towards zero.\<close>

definition py_int :: "rat \<Rightarrow> int" where
  "py_int q = (if 0 \<le> q then \<lfloor>q\<rfloor> else \<lceil>q\<rceil>)"

text \<open>\<^verbatim>\<open>round(x)\<close> on a float rounds to the nearest integer, ties to the even one.\<close>

definition py_round :: "rat \<Rightarrow> int" where
  "py_round q =
     (let f = \<lfloor>q\<rfloor>; d = q - of_int f
      in if d < 1 / 2 then f
         else if 1 / 2 < d then f + 1
         else if even f then f else f + 1)"

text \<open>
  \<^verbatim>\<open>milliseconds_to_time\<close>: \<^verbatim>\<open>int(milliseconds / 1000)\<close> is a true division followed by a
  truncation towards zero; \<^verbatim>\<open>//\<close> and \<^verbatim>\<open>%\<close> are the flooring operations, which are
  \<open>div\<close> and \<open>mod\<close> on \<open>int\<close>. The model divides exactly where Python rounds the
  quotient to a float. The results are the same: below 86400000 ms the truncated float
  is the exact \<open>milliseconds div 1000\<close>; rounding is monotone and \<open>86400\<close> and
  \<open>3600 * 2\<^sup>3\<^sup>1\<close> are floats, so above that the hour is on the same side of 24 and of
  \<open>2\<^sup>3\<^sup>1\<close> as the exact one and the constructor raises the same exception; and a
  quotient too large for a float raises \<^verbatim>\<open>OverflowError\<close>, as the constructor does on the
  hour of the exact quotient.
\<close>

definition milliseconds_to_time :: "int \<Rightarrow> error + time" where
  "milliseconds_to_time milliseconds =
     (let s = py_int (of_int milliseconds / 1000)
      in datetime_time (s div 3600) ((s mod 3600) div 60) (s mod 60))"

definition seconds_to_time :: "number \<Rightarrow> error + time" where
  "seconds_to_time seconds =
     (let s = (case seconds of PyFloat q \<Rightarrow> py_round q | PyInt n \<Rightarrow> n)
      in datetime_time (s div 3600) ((s mod 3600) div 60) (s mod 60))"

definition time_to_seconds :: "time \<Rightarrow> int" where
  "time_to_seconds t = (hour t * 60 + minute t) * 60 + second t"

subsection \<open>\<^verbatim>\<open>valid_filename\<close>\<close>

text \<open>
  A Python \<^verbatim>\<open>str\<close> is a sequence of code points; a \<open>char\<close> here is a code point below
  256, so the model covers the strings of the Latin-1 range. \<open>is_space\<close> is the
  whitespace that \<^verbatim>\<open>str.strip()\<close> removes and \<open>is_word\<close> is the class \<^verbatim>\<open>\w\<close> of
  \<^verbatim>\<open>re\<close> on \<^verbatim>\<open>str\<close> patterns (alphanumeric in the Unicode database, or the underscore),
  both restricted to that range.
\<close>

definition is_space :: "char \<Rightarrow> bool" where
  "is_space c =
     (let n = (of_char c :: nat)
      in (9 \<le> n \<and> n \<le> 13) \<or> (28 \<le> n \<and> n \<le> 32) \<or> n = 133 \<or> n = 160)"

definition is_word :: "char \<Rightarrow> bool" where
  "is_word c =
     (let n = (of_char c :: nat)
      in (48 \<le> n \<and> n \<le> 57) \<or> (65 \<le> n \<and> n \<le> 90) \<or> n = 95 \<or> (97 \<le> n \<and> n \<le> 122)
         \<or> n = 170 \<or> n = 178 \<or> n = 179 \<or> n = 181 \<or> n = 185 \<or> n = 186
         \<or> (188 \<le> n \<and> n \<le> 190) \<or> (192 \<le> n \<and> n \<le> 214)
         \<or> (216 \<le> n \<and> n \<le> 246) \<or> (248 \<le> n \<and> n \<le> 255))"

text \<open>\<^verbatim>\<open>s.strip()\<close>: drops the leading, then the trailing, whitespace.\<close>

fun lstrip :: "string \<Rightarrow> string" where
  "lstrip [] = []"
| "lstrip (c # cs) = (if is_space c then lstrip cs else c # cs)"

definition strip :: "string \<Rightarrow> string" where
  "strip s = rev (lstrip (rev (lstrip s)))"

text \<open>\<^verbatim>\<open>s.replace(old, new)\<close> for one-character \<open>old\<close> and \<open>new\<close>, scanning left to right.\<close>

fun replace :: "char \<Rightarrow> char \<Rightarrow> string \<Rightarrow> string" where
  "replace old new [] = []"
| "replace old new (c # cs) =
     (if c = old then new # replace old new cs else c # replace old new cs)"

text \<open>
  \<^verbatim>\<open>re.sub(pattern, '', s)\<close> for a pattern that is a single character class: every
  character in the class is a match and is replaced by the empty string.
\<close>

fun re_sub_class :: "(char \<Rightarrow> bool) \<Rightarrow> string \<Rightarrow> string" where
  "re_sub_class cls [] = []"
| "re_sub_class cls (c # cs) =
     (if cls c then re_sub_class cls cs else c # re_sub_class cls cs)"

text \<open>The class \<^verbatim>\<open>[^-\w.]\<close>.\<close>

definition not_filename_char :: "char \<Rightarrow> bool" where
  "not_filename_char c \<longleftrightarrow> \<not> (c = CHR ''-'' \<or> is_word c \<or> c = CHR ''.'')"

definition valid_filename :: "string \<Rightarrow> string" where
  "valid_filename filename =
     re_sub_class not_filename_char (replace (CHR '' '') (CHR ''_'') (strip filename))"

text \<open>
  The specification's wording of the same function: trim, turn spaces into
  underscores, keep only word characters, hyphens and periods.
\<close>

definition trim_spec :: "string \<Rightarrow> string" where
  "trim_spec s = rev (dropWhile is_space (rev (dropWhile is_space s)))"

definition valid_filename_spec :: "string \<Rightarrow> string" where
  "valid_filename_spec s =
     filter (\<lambda>c. is_word c \<or> c = CHR ''-'' \<or> c = CHR ''.'')
       (map (\<lambda>c. if c = CHR '' '' then CHR ''_'' else c) (trim_spec s))"

subsection \<open>The data model\<close>

record Thumbnail =
  url :: string
  width :: int
  height :: int

record Chapter =
  title :: string
  start_time :: time
  end_time :: time
  thumbnails :: "Thumbnail list"

text \<open>Every field of a \<^verbatim>\<open>Heatmap\<close> is \<^verbatim>\<open>Optional\<close>; \<open>None\<close> is Python's \<^verbatim>\<open>None\<close>.\<close>

record Heatmap =
  "chapter" :: "Chapter option"
  start_time :: "time option"
  end_time :: "time option"
  intensity_score_normalised :: "rat option"

text \<open>
  \<^verbatim>\<open>most_intense_heatmaps\<close> assigns to fields of \<^verbatim>\<open>Heatmap\<close> objects that are shared
  between lists, so the fields of heatmaps live in an explicit store. A pydantic model
  keeps its fields in its attribute dictionary (\<^verbatim>\<open>__dict__\<close>), and reading or assigning a
  field of an object reads or updates that dictionary. The store maps the address of an
  attribute dictionary to the fields in it. A \<^verbatim>\<open>Heatmap\<close> object is a reference: its
  identity and the address of its attribute dictionary. Two objects with different
  identities may have the same attribute dictionary, and then an assignment to a field
  of one is seen through the other. Chapters and thumbnails are never assigned to and
  are modelled by value.
\<close>

type_synonym addr = nat

type_synonym heap = "addr \<Rightarrow> Heatmap"

datatype ref = Ref (ident: nat) (attrs: addr)

record VideoHeatmap =
  url :: string
  heatmaps :: "ref list"

text \<open>
  \<^verbatim>\<open>VideoHeatmap(url=u, heatmaps=hs)\<close>: pydantic validates the elements of \<open>hs\<close>, and
  depending on its version it stores each element itself or a copy of it that has the
  same attribute dictionary (the shallow copy of pydantic 1.10, which does not copy the
  dictionary). Either way the stored heatmaps have the attribute dictionaries of the
  arguments, in the same order; \<open>constructed_from self u hs\<close> says that \<open>self\<close> is such a
  result.
\<close>

definition constructed_from :: "VideoHeatmap \<Rightarrow> string \<Rightarrow> ref list \<Rightarrow> bool" where
  "constructed_from self u hs \<longleftrightarrow>
     VideoHeatmap.url self = u \<and> map attrs (heatmaps self) = map attrs hs"

datatype ClipAlign = left | center | right

text \<open>
  \<^verbatim>\<open>Video.ydl_info\<close> is the dictionary that \<^verbatim>\<open>yt_dlp\<close> fills in; the program reads its
  keys \<^verbatim>\<open>"id"\<close> and \<^verbatim>\<open>"duration"\<close>. \<open>None\<close> is a missing key (the dictionary is empty until
  \<^verbatim>\<open>download\<close> has run), and reading it raises \<^verbatim>\<open>KeyError\<close>.
\<close>

record ydl_info =
  id' :: "string option"
  duration :: "number option"

record Video =
  url :: string
  ydl_info :: ydl_info

subsection \<open>\<^verbatim>\<open>VideoHeatmap.chapters\<close>\<close>

text \<open>
  The body of the property reads the name \<^verbatim>\<open>video_heatmap\<close>, which is neither a parameter
  nor a local: Python looks it up among the globals of the module when the property is
  evaluated. The first argument is that binding, \<open>None\<close> when the name is unbound (the
  module never binds it), in which case the lookup raises \<^verbatim>\<open>NameError\<close>. The receiver
  \<open>self\<close> is not used by the body.
\<close>

definition chapters :: "VideoHeatmap option \<Rightarrow> heap \<Rightarrow> VideoHeatmap \<Rightarrow> error + Chapter list" where
  "chapters video_heatmap H self =
     (case video_heatmap of
        None \<Rightarrow> Inl NameError
      | Some v \<Rightarrow> Inr (map (\<lambda>a. the (chapter (H (attrs a))))
                     (filter (\<lambda>a. chapter (H (attrs a)) \<noteq> None) (heatmaps v))))"

subsection \<open>\<^verbatim>\<open>VideoHeatmap.most_intense_heatmaps\<close>\<close>

text \<open>
  \<^verbatim>\<open>sorted(self.heatmaps, key=..., reverse=True)\<close>: a stable sort, descending in the
  intensity, that keeps the original order of equal keys; it is the stable ascending
  sort on the negated key. Comparing \<^verbatim>\<open>None\<close> with anything raises \<^verbatim>\<open>TypeError\<close>, and
  with two or more elements every key takes part in a comparison.
\<close>

definition intensity_key :: "heap \<Rightarrow> ref \<Rightarrow> rat" where
  "intensity_key H a =
     (case intensity_score_normalised (H (attrs a)) of Some q \<Rightarrow> - q | None \<Rightarrow> 0)"

definition sorted_heatmaps :: "heap \<Rightarrow> ref list \<Rightarrow> error + ref list" where
  "sorted_heatmaps H as =
     (if 2 \<le> length as \<and> (\<exists>a \<in> set as. intensity_score_normalised (H (attrs a)) = None)
      then Inl TypeError
      else Inr (sort_key (intensity_key H) as))"

text \<open>\<^verbatim>\<open>xs[:n]\<close>: a negative \<open>n\<close> counts from the end.\<close>

definition slice_to :: "'a list \<Rightarrow> int \<Rightarrow> 'a list" where
  "slice_to xs n = (if 0 \<le> n then take (nat n) xs else take (nat (int (length xs) + n)) xs)"

text \<open>
  One iteration of the merge loop for the heatmap \<open>a\<close>. The dictionary
  \<^verbatim>\<open>merged_heatmaps\<close> is an association list in insertion order, from chapter titles to
  heatmap objects. An assignment to a field updates the store, also when a later
  comparison raises, so the store is returned beside the outcome.
\<close>

definition merge_step ::
  "int \<Rightarrow> ref \<Rightarrow> heap \<Rightarrow> (string \<times> ref) list \<Rightarrow> heap \<times> (error + (string \<times> ref) list)" where
  "merge_step count a H merged_heatmaps =
     (case chapter (H (attrs a)) of
        None \<Rightarrow> (H, Inr merged_heatmaps)
      | Some c \<Rightarrow>
          (case map_of merged_heatmaps (title c) of
             None \<Rightarrow>
               if int (length merged_heatmaps) \<le> count
               then (H, Inr (merged_heatmaps @ [(title c, a)]))
               else (H, Inr merged_heatmaps)
           | Some b \<Rightarrow>
               (case (Heatmap.start_time (H (attrs a)), Heatmap.start_time (H (attrs b))) of
                  (Some sa, Some sb) \<Rightarrow>
                    (let H1 = (if time_le sa sb
                               then H(attrs b := (H (attrs b))\<lparr>Heatmap.start_time := Some sa\<rparr>) else H)
                     in case (Heatmap.end_time (H1 (attrs b)), Heatmap.end_time (H1 (attrs a))) of
                          (Some eb, Some ea) \<Rightarrow>
                            (if time_le eb ea
                             then (H1(attrs b := (H1 (attrs b))\<lparr>Heatmap.end_time := Some ea\<rparr>),
                                   Inr merged_heatmaps)
                             else (H1, Inr merged_heatmaps))
                        | _ \<Rightarrow> (H1, Inl TypeError))
                | _ \<Rightarrow> (H, Inl TypeError))))"

fun merge_loop ::
  "int \<Rightarrow> ref list \<Rightarrow> heap \<Rightarrow> (string \<times> ref) list \<Rightarrow> heap \<times> (error + (string \<times> ref) list)" where
  "merge_loop count [] H merged_heatmaps = (H, Inr merged_heatmaps)"
| "merge_loop count (a # as) H merged_heatmaps =
     (case merge_step count a H merged_heatmaps of
        (H', Inl e) \<Rightarrow> (H', Inl e)
      | (H', Inr merged') \<Rightarrow> merge_loop count as H' merged')"

text \<open>
  The method returns the store after the call and either the exception or the list of
  heatmap objects it returns.
\<close>

definition most_intense_heatmaps ::
  "heap \<Rightarrow> VideoHeatmap \<Rightarrow> bool \<Rightarrow> int \<Rightarrow> heap \<times> (error + ref list)" where
  "most_intense_heatmaps H self merge count =
     (case sorted_heatmaps H (heatmaps self) of
        Inl e \<Rightarrow> (H, Inl e)
      | Inr srt \<Rightarrow>
          if \<not> merge \<or> int (length (filter (\<lambda>a. chapter (H (attrs a)) \<noteq> None) srt)) < count
          then (H, Inr (slice_to srt count))
          else (case merge_loop count srt H [] of
                  (H', Inl e) \<Rightarrow> (H', Inl e)
                | (H', Inr merged) \<Rightarrow> (H', Inr (map snd merged))))"

text \<open>The minimum and the maximum of two times, in the order of \<open>time_le\<close>.\<close>

definition time_min :: "time \<Rightarrow> time \<Rightarrow> time" where
  "time_min a b = (if time_le a b then a else b)"

definition time_max :: "time \<Rightarrow> time \<Rightarrow> time" where
  "time_max a b = (if time_le a b then b else a)"

text \<open>
  \<open>widens h h'\<close>: the heatmap \<open>h'\<close> is \<open>h\<close> with its interval possibly widened: the same
  chapter and intensity, a start that is not later and an end that is not earlier (a
  time that is unset stays unset).
\<close>

definition opt_time_le :: "time option \<Rightarrow> time option \<Rightarrow> bool" where
  "opt_time_le a b =
     (case (a, b) of
        (Some s, Some t) \<Rightarrow> time_le s t
      | (None, None) \<Rightarrow> True
      | _ \<Rightarrow> False)"

definition widens :: "Heatmap \<Rightarrow> Heatmap \<Rightarrow> bool" where
  "widens h h' \<longleftrightarrow>
     chapter h' = chapter h
     \<and> intensity_score_normalised h' = intensity_score_normalised h
     \<and> opt_time_le (Heatmap.start_time h') (Heatmap.start_time h)
     \<and> opt_time_le (Heatmap.end_time h) (Heatmap.end_time h')"

text \<open>\<open>timed H a\<close>: the start and the end of the heatmap \<open>a\<close> are set.\<close>

definition timed :: "heap \<Rightarrow> ref \<Rightarrow> bool" where
  "timed H a \<longleftrightarrow>
     Heatmap.start_time (H (attrs a)) \<noteq> None \<and> Heatmap.end_time (H (attrs a)) \<noteq> None"

subsection \<open>Clip generation\<close>

text \<open>
  \<^verbatim>\<open>Video.generate_clip\<close> hands a source file, a target file and the two arguments of
  \<^verbatim>\<open>subclip\<close> to the video library; the model returns that request. \<open>None\<close> as the end
  is Python's \<^verbatim>\<open>None\<close>: the clip runs to the end of the source.
\<close>

record clip =
  source :: string
  target :: string
  t_start :: int
  t_end :: "int option"

text \<open>\<^verbatim>\<open>n < d\<close> for an \<^verbatim>\<open>int\<close> \<open>n\<close> and a number \<open>d\<close>.\<close>

definition int_less_number :: "int \<Rightarrow> number \<Rightarrow> bool" where
  "int_less_number n d = (case d of PyInt m \<Rightarrow> n < m | PyFloat q \<Rightarrow> of_int n < q)"

definition generate_clip :: "Video \<Rightarrow> string \<Rightarrow> string \<Rightarrow> time \<Rightarrow> time \<Rightarrow> error + clip" where
  "generate_clip self file_name clip_file_name start finish =
     (case duration (ydl_info self) of
        None \<Rightarrow> Inl KeyError
      | Some d \<Rightarrow>
          Inr \<lparr>source = ''tmp/videos/'' @ file_name,
               target = ''tmp/clips/'' @ clip_file_name,
               t_start = (if 0 < time_to_seconds start
                          then time_to_seconds start else 0),
               t_end = (if int_less_number (time_to_seconds finish) d
                        then Some (time_to_seconds finish) else None)\<rparr>)"

text \<open>
  The body of the loop of \<^verbatim>\<open>generate_chapter_clips\<close>, up to the call of
  \<^verbatim>\<open>generate_clip\<close>: the start and end of the clip of one chapter. \<^verbatim>\<open>if length:\<close> is
  false for \<^verbatim>\<open>None\<close> and for \<open>0\<close>; the last branch is taken for \<^verbatim>\<open>center\<close> and for
  \<^verbatim>\<open>None\<close>, and there \<^verbatim>\<open>length/2\<close> is a float. A \<^verbatim>\<open>datetime.time\<close> is always true, so
  \<^verbatim>\<open>start_time or chapter.start_time\<close> is \<^verbatim>\<open>start_time\<close> unless that is \<^verbatim>\<open>None\<close>.
\<close>

definition chapter_clip_times ::
  "Chapter \<Rightarrow> ClipAlign option \<Rightarrow> int option \<Rightarrow> error + time \<times> time" where
  "chapter_clip_times c align len =
     (if len = None \<or> len = Some 0
      then Inr (Chapter.start_time c, Chapter.end_time c)
      else
        (let l = the len in
         if align = Some left then
           (case seconds_to_time (PyInt (time_to_seconds (Chapter.start_time c) + l)) of
              Inl e \<Rightarrow> Inl e
            | Inr finish \<Rightarrow> Inr (Chapter.start_time c, finish))
         else if align = Some right then
           (case seconds_to_time (PyInt (time_to_seconds (Chapter.start_time c) - l)) of
              Inl e \<Rightarrow> Inl e
            | Inr start \<Rightarrow> Inr (start, Chapter.end_time c))
         else
           (let middle = (time_to_seconds (Chapter.start_time c)
                          + time_to_seconds (Chapter.end_time c)) div 2
            in case seconds_to_time (PyFloat (of_int middle - of_int l / 2)) of
                 Inl e \<Rightarrow> Inl e
               | Inr start \<Rightarrow>
                   (case seconds_to_time (PyFloat (of_int middle + of_int l / 2)) of
                      Inl e \<Rightarrow> Inl e
                    | Inr finish \<Rightarrow> Inr (start, finish)))))"

definition generate_chapter_clip ::
  "Video \<Rightarrow> Chapter \<Rightarrow> ClipAlign option \<Rightarrow> int option \<Rightarrow> error + clip" where
  "generate_chapter_clip self c align len =
     (case chapter_clip_times c align len of
        Inl e \<Rightarrow> Inl e
      | Inr (start, finish) \<Rightarrow>
          (case id' (ydl_info self) of
             None \<Rightarrow> Inl KeyError
           | Some i \<Rightarrow>
               generate_clip self (i @ ''.webm'') (valid_filename (title c) @ ''.mp4'')
                 start finish))"

text \<open>
  \<^verbatim>\<open>generate_chapter_clips\<close>: the clips requested, in order, and the exception that ended
  the loop, if any.
\<close>

fun generate_chapter_clips ::
  "Video \<Rightarrow> Chapter list \<Rightarrow> ClipAlign option \<Rightarrow> int option \<Rightarrow> clip list \<times> error option" where
  "generate_chapter_clips self [] align len = ([], None)"
| "generate_chapter_clips self (c # cs) align len =
     (case generate_chapter_clip self c align len of
        Inl e \<Rightarrow> ([], Some e)
      | Inr k \<Rightarrow>
          (case generate_chapter_clips self cs align len of
             (ks, r) \<Rightarrow> (k # ks, r)))"

subsection \<open>The marker parser\<close>

text \<open>
  The marker data is the list of \<^verbatim>\<open>{"key": ..., "value": ...}\<close> entries of the page's
  JSON. The payloads are modelled at the shape the parser indexes: a
  \<^verbatim>\<open>chapterRenderer\<close> with its title text, start offset and thumbnails, and a
  \<^verbatim>\<open>heatMarkerRenderer\<close> with its start offset, duration and intensity, with the offsets
  as integers. A tag whose payload has another shape makes the indexing raise
  \<^verbatim>\<open>KeyError\<close>.
\<close>

record chapterRenderer =
  simpleText :: string
  timeRangeStartMillis :: int
  thumbnails :: "Thumbnail list"

record heatMarkerRenderer =
  timeRangeStartMillis :: int
  markerDurationMillis :: int
  heatMarkerIntensityScoreNormalized :: rat

datatype marker_value =
    chapters_value "chapterRenderer list"
  | heat_markers_value "heatMarkerRenderer list"
  | other_value

type_synonym marker_data = "(string \<times> marker_value) list"

text \<open>The first loop of \<^verbatim>\<open>get_chapters\<close>: the payload of the first chapters entry.\<close>

fun chapter_data :: "marker_data \<Rightarrow> error + chapterRenderer list" where
  "chapter_data [] = Inr []"
| "chapter_data ((k, v) # rest) =
     (if k = ''DESCRIPTION_CHAPTERS''
      then (case v of chapters_value cs \<Rightarrow> Inr cs | _ \<Rightarrow> Inl KeyError)
      else chapter_data rest)"

text \<open>
  The second loop of \<^verbatim>\<open>get_chapters\<close>, on the raw chapters from index \<open>i\<close> on: the
  end of a chapter is the start of the next one, or the duration of the video for the
  last one; the end is computed before the start.
\<close>

fun build_chapters :: "Video \<Rightarrow> chapterRenderer list \<Rightarrow> error + Chapter list" where
  "build_chapters video [] = Inr []"
| "build_chapters video (c # rest) =
     (case (case rest of
              n # _ \<Rightarrow> milliseconds_to_time (chapterRenderer.timeRangeStartMillis n)
            | [] \<Rightarrow> (case duration (ydl_info video) of
                       None \<Rightarrow> Inl KeyError
                     | Some d \<Rightarrow> seconds_to_time d)) of
        Inl e \<Rightarrow> Inl e
      | Inr finish \<Rightarrow>
          (case milliseconds_to_time (chapterRenderer.timeRangeStartMillis c) of
             Inl e \<Rightarrow> Inl e
           | Inr start \<Rightarrow>
               (case build_chapters video rest of
                  Inl e \<Rightarrow> Inl e
                | Inr cs \<Rightarrow>
                    Inr (\<lparr>title = simpleText c, start_time = start,
                          end_time = finish,
                          thumbnails = chapterRenderer.thumbnails c\<rparr> # cs))))"

definition get_chapters :: "marker_data \<Rightarrow> Video \<Rightarrow> error + Chapter list" where
  "get_chapters marker_data video =
     (case chapter_data marker_data of
        Inl e \<Rightarrow> Inl e
      | Inr cd \<Rightarrow> build_chapters video cd)"

fun heatmap_data :: "marker_data \<Rightarrow> error + heatMarkerRenderer list" where
  "heatmap_data [] = Inr []"
| "heatmap_data ((k, v) # rest) =
     (if k = ''HEATSEEKER''
      then (case v of heat_markers_value hs \<Rightarrow> Inr hs | _ \<Rightarrow> Inl KeyError)
      else heatmap_data rest)"

text \<open>
  The inner loop of \<^verbatim>\<open>get_heatmaps\<close>, with the running \<^verbatim>\<open>matching_chapter\<close> as the last
  argument; \<open>t\<close> is the start of the heatmap.
\<close>

fun matching_chapter :: "time \<Rightarrow> Chapter list \<Rightarrow> Chapter option \<Rightarrow> Chapter option" where
  "matching_chapter t [] m = m"
| "matching_chapter t (c # cs) m =
     matching_chapter t cs (if time_le (Chapter.start_time c) t then Some c else m)"

text \<open>
  One iteration of the outer loop. The parameter \<^verbatim>\<open>chapters\<close> (here \<open>chs\<close>) is
  \<^verbatim>\<open>Optional\<close>, and iterating over \<^verbatim>\<open>None\<close> raises \<^verbatim>\<open>TypeError\<close>.
\<close>

definition heatmap_of ::
  "Chapter list option \<Rightarrow> heatMarkerRenderer \<Rightarrow> error + Heatmap" where
  "heatmap_of chs heatmap =
     (case chs of
        None \<Rightarrow> Inl TypeError
      | Some cs \<Rightarrow>
          (case milliseconds_to_time (heatMarkerRenderer.timeRangeStartMillis heatmap) of
             Inl e \<Rightarrow> Inl e
           | Inr start \<Rightarrow>
               (case milliseconds_to_time
                       (heatMarkerRenderer.timeRangeStartMillis heatmap
                        + markerDurationMillis heatmap) of
                  Inl e \<Rightarrow> Inl e
                | Inr finish \<Rightarrow>
                    Inr \<lparr>chapter = matching_chapter start cs None,
                         start_time = Some start,
                         end_time = Some finish,
                         intensity_score_normalised =
                           Some (heatMarkerIntensityScoreNormalized heatmap)\<rparr>)))"

fun build_heatmaps ::
  "Chapter list option \<Rightarrow> heatMarkerRenderer list \<Rightarrow> error + Heatmap list" where
  "build_heatmaps chs [] = Inr []"
| "build_heatmaps chs (h # rest) =
     (case heatmap_of chs h of
        Inl e \<Rightarrow> Inl e
      | Inr x \<Rightarrow>
          (case build_heatmaps chs rest of
             Inl e \<Rightarrow> Inl e
           | Inr xs \<Rightarrow> Inr (x # xs)))"

definition get_heatmaps :: "marker_data \<Rightarrow> Chapter list option \<Rightarrow> error + Heatmap list" where
  "get_heatmaps marker_data chs =
     (case heatmap_data marker_data of
        Inl e \<Rightarrow> Inl e
      | Inr hs \<Rightarrow> build_heatmaps chs hs)"

text \<open>
  The specification's wording of the chapter of a heatmap that starts at \<open>t\<close>: the last
  chapter, in list order, whose start is at most \<open>t\<close>; none when no chapter qualifies.
\<close>

definition last_qualifying :: "time \<Rightarrow> Chapter list \<Rightarrow> Chapter option" where
  "last_qualifying t cs =
     (let qualifying = filter (\<lambda>c. time_le (Chapter.start_time c) t) cs
      in if qualifying = [] then None else Some (last qualifying))"

subsection \<open>Example data\<close>

text \<open>
  A three-minute video with chapters starting at 0, 60 and 120 seconds, and one heat
  marker starting at 90 seconds.
\<close>

definition example_video :: Video where
  "example_video = \<lparr>url = ''u'', ydl_info = \<lparr>id' = Some ''v'', duration = Some (PyInt 180)\<rparr>\<rparr>"

definition example_marker_data :: marker_data where
  "example_marker_data =
     [(''DESCRIPTION_CHAPTERS'',
       chapters_value
         [\<lparr>simpleText = ''Intro'', timeRangeStartMillis = 0, thumbnails = []\<rparr>,
          \<lparr>simpleText = ''Middle'', timeRangeStartMillis = 60000, thumbnails = []\<rparr>,
          \<lparr>simpleText = ''Outro'', timeRangeStartMillis = 120000, thumbnails = []\<rparr>]),
      (''HEATSEEKER'',
       heat_markers_value
         [\<lparr>timeRangeStartMillis = 90000, markerDurationMillis = 10000,
           heatMarkerIntensityScoreNormalized = 9 / 10\<rparr>])]"

definition example_chapter :: "string \<Rightarrow> int \<Rightarrow> int \<Rightarrow> Chapter" where
  "example_chapter name m n =
     \<lparr>title = name, start_time = \<lparr>hour = 0, minute = m, second = 0\<rparr>,
      end_time = \<lparr>hour = 0, minute = n, second = 0\<rparr>, thumbnails = []\<rparr>"

definition example_chapters :: "Chapter list" where
  "example_chapters =
     [example_chapter ''Intro'' 0 1, example_chapter ''Middle'' 1 2,
      example_chapter ''Outro'' 2 3]"

definition example_heatmap :: Heatmap where
  "example_heatmap =
     \<lparr>chapter = Some (example_chapter ''Middle'' 1 2),
      start_time = Some \<lparr>hour = 0, minute = 1, second = 30\<rparr>,
      end_time = Some \<lparr>hour = 0, minute = 1, second = 40\<rparr>,
      intensity_score_normalised = Some (9 / 10)\<rparr>"

text \<open>
  A store made of a list of heatmaps: the attribute dictionary at address \<open>a\<close> holds the
  fields of the \<open>a\<close>-th heatmap of the list, and every other address holds a heatmap
  without any field set.
\<close>

definition heap_of :: "Heatmap list \<Rightarrow> heap" where
  "heap_of hs a =
     (if a < length hs then hs ! a
      else \<lparr>chapter = None, start_time = None, end_time = None,
            intensity_score_normalised = None\<rparr>)"

definition seconds :: "int \<Rightarrow> time" where
  "seconds s = \<lparr>hour = 0, minute = 0, second = s\<rparr>"

text \<open>
  Two heatmaps of the chapter ``Intro'', from 10 to 20 and from 15 to 30 seconds, with
  intensities \<open>i\<close> and \<open>j\<close>; in the examples the object \<open>Ref n n\<close> is the \<open>n\<close>-th heatmap.
\<close>

definition intro_heatmaps :: "rat \<Rightarrow> rat \<Rightarrow> Heatmap list" where
  "intro_heatmaps i j =
     [\<lparr>chapter = Some (example_chapter ''Intro'' 0 1),
       start_time = Some (seconds 10), end_time = Some (seconds 20),
       intensity_score_normalised = Some i\<rparr>,
      \<lparr>chapter = Some (example_chapter ''Intro'' 0 1),
       start_time = Some (seconds 15), end_time = Some (seconds 30),
       intensity_score_normalised = Some j\<rparr>]"

definition intro_video_heatmap :: VideoHeatmap where
  "intro_video_heatmap = \<lparr>VideoHeatmap.url = ''u'', heatmaps = [Ref 0 0, Ref 1 1]\<rparr>"

text \<open>Three heatmaps in three chapters, in descending intensity.\<close>

definition three_heatmaps :: "Heatmap list" where
  "three_heatmaps =
     [\<lparr>chapter = Some (example_chapter ''Intro'' 0 1),
       start_time = Some (seconds 10), end_time = Some (seconds 20),
       intensity_score_normalised = Some (9 / 10)\<rparr>,
      \<lparr>chapter = Some (example_chapter ''Middle'' 1 2),
       start_time = Some \<lparr>hour = 0, minute = 1, second = 30\<rparr>,
       end_time = Some \<lparr>hour = 0, minute = 1, second = 40\<rparr>,
       intensity_score_normalised = Some (8 / 10)\<rparr>,
      \<lparr>chapter = Some (example_chapter ''Outro'' 2 3),
       start_time = Some \<lparr>hour = 0, minute = 2, second = 30\<rparr>,
       end_time = Some \<lparr>hour = 0, minute = 2, second = 40\<rparr>,
       intensity_score_normalised = Some (7 / 10)\<rparr>]"

definition three_video_heatmap :: VideoHeatmap where
  "three_video_heatmap =
     \<lparr>VideoHeatmap.url = ''u'', heatmaps = [Ref 0 0, Ref 1 1, Ref 2 2]\<rparr>"

section \<open>Time arithmetic\<close>

lemma datetime_time_Inr:
  "0 \<le> h \<Longrightarrow> h < 24 \<Longrightarrow> 0 \<le> m \<Longrightarrow> m < 60 \<Longrightarrow> 0 \<le> s \<Longrightarrow> s < 60 \<Longrightarrow>
     datetime_time h m s = Inr \<lparr>hour = h, minute = m, second = s\<rparr>"
  by (simp add: datetime_time_def c_int_def)

text \<open>
  The minute and the second that \<^verbatim>\<open>seconds_to_time\<close> and \<^verbatim>\<open>milliseconds_to_time\<close> pass
  are in range, so an hour out of range decides the exception.
\<close>

lemma datetime_time_hour_out:
  assumes "h < 0 \<or> 23 < h" "0 \<le> m" "m < 60" "0 \<le> s" "s < 60"
  shows "datetime_time h m s = Inl (if c_int h then ValueError else OverflowError)"
  using assms by (simp add: datetime_time_def c_int_def)

lemma hms_hour_out:
  assumes "s div 3600 < 0 \<or> 23 < s div 3600"
  shows "datetime_time (s div 3600) (s mod 3600 div 60) (s mod 60)
           = Inl (if c_int (s div 3600) then ValueError else OverflowError)"
proof -
  have m: "0 \<le> s mod 3600 div 60" "s mod 3600 div 60 < 60"
    by (simp_all add: pos_imp_zdiv_nonneg_iff div_less_iff_less_mult)
  have c: "0 \<le> s mod 60" "s mod 60 < 60"
    by simp_all
  show ?thesis
    using assms m c by (rule datetime_time_hour_out)
qed

lemma seconds_split: "((s::int) div 3600 * 60 + s mod 3600 div 60) * 60 + s mod 60 = s"
proof -
  have a: "s mod 60 = (s mod 3600) mod 60"
    by (simp add: mod_mod_cancel)
  have b: "(s mod 3600) div 60 * 60 + (s mod 3600) mod 60 = s mod 3600"
    by simp
  have c: "s div 3600 * 3600 + s mod 3600 = s"
    by simp
  show ?thesis using a b c by (simp add: algebra_simps)
qed

lemma seconds_to_time_int_in_range:
  assumes "0 \<le> s" "s < 86400"
  shows "seconds_to_time (PyInt s) =
           Inr \<lparr>hour = s div 3600, minute = s mod 3600 div 60, second = s mod 60\<rparr>"
proof -
  have h: "0 \<le> s div 3600" "s div 3600 < 24"
    using assms by (simp_all add: pos_imp_zdiv_nonneg_iff div_less_iff_less_mult)
  have m: "0 \<le> s mod 3600 div 60" "s mod 3600 div 60 < 60"
    by (simp_all add: pos_imp_zdiv_nonneg_iff div_less_iff_less_mult)
  have c: "0 \<le> s mod 60" "s mod 60 < 60"
    by simp_all
  show ?thesis
    unfolding seconds_to_time_def Let_def number.case
    by (rule datetime_time_Inr) (fact h m c)+
qed

lemma hour_below_c_int: "((s::int) div 3600 < 2147483648) = (s < 7730941132800)"
proof -
  define q r where "q = s div 3600" and "r = s mod 3600"
  have s: "s = 3600 * q + r" and r: "0 \<le> r" "r < 3600"
    by (simp_all add: q_def r_def)
  show ?thesis
    unfolding q_def [symmetric] using s r by linarith
qed

lemma hour_above_c_int: "(- 2147483648 \<le> (s::int) div 3600) = (- 7730941132800 \<le> s)"
proof -
  define q r where "q = s div 3600" and "r = s mod 3600"
  have s: "s = 3600 * q + r" and r: "0 \<le> r" "r < 3600"
    by (simp_all add: q_def r_def)
  show ?thesis
    unfolding q_def [symmetric] using s r by linarith
qed

lemma seconds_to_time_int_too_large:
  assumes "86400 \<le> s"
  shows "seconds_to_time (PyInt s)
           = Inl (if s < 7730941132800 then ValueError else OverflowError)"
proof -
  have h: "24 \<le> s div 3600"
    using assms by (simp add: less_eq_div_iff_mult_less_eq)
  have "c_int (s div 3600) \<longleftrightarrow> s < 7730941132800"
    using h hour_below_c_int [of s] by (simp add: c_int_def)
  moreover have "datetime_time (s div 3600) (s mod 3600 div 60) (s mod 60)
      = Inl (if c_int (s div 3600) then ValueError else OverflowError)"
    using h by (intro hms_hour_out) simp
  ultimately show ?thesis
    by (simp add: seconds_to_time_def)
qed

lemma seconds_to_time_int_negative:
  assumes "s < 0"
  shows "seconds_to_time (PyInt s)
           = Inl (if - 7730941132800 \<le> s then ValueError else OverflowError)"
proof -
  have h: "s div 3600 < 0"
    using assms by (simp add: div_neg_pos_less0)
  have "c_int (s div 3600) \<longleftrightarrow> - 7730941132800 \<le> s"
    using h hour_above_c_int [of s] by (simp add: c_int_def)
  moreover have "datetime_time (s div 3600) (s mod 3600 div 60) (s mod 60)
      = Inl (if c_int (s div 3600) then ValueError else OverflowError)"
    using h by (intro hms_hour_out) simp
  ultimately show ?thesis
    by (simp add: seconds_to_time_def)
qed

text \<open>
  C5, as the specification states it, fails: \<^verbatim>\<open>datetime.time\<close> takes hours from 0 to 23
  only, so \<^verbatim>\<open>seconds_to_time(86400)\<close> raises \<^verbatim>\<open>ValueError\<close> and there is no round trip.
\<close>

theorem seconds_round_trip_counterexample:
  "seconds_to_time (PyInt 86400) = Inl ValueError"
  by (simp add: seconds_to_time_def datetime_time_def c_int_def)

text \<open>
  C5 (amended): for every integer number of seconds \<open>s\<close> with \<open>0 \<le> s < 86400\<close>,
  \<^verbatim>\<open>seconds_to_time\<close> returns a time whose \<^verbatim>\<open>time_to_seconds\<close> is exactly \<open>s\<close>; the hour of
  that time is below 24, and from 86400 seconds on \<^verbatim>\<open>seconds_to_time\<close> raises an exception
  instead of returning a time.
\<close>

theorem seconds_round_trip:
  "(0 \<le> s \<and> s < 86400 \<longrightarrow>
      (\<exists>t. seconds_to_time (PyInt s) = Inr t \<and> time_to_seconds t = s \<and> hour t < 24))
   \<and> (86400 \<le> s \<longrightarrow> (\<exists>e. seconds_to_time (PyInt s) = Inl e))"
proof (intro conjI impI)
  assume "0 \<le> s \<and> s < 86400"
  then have r: "0 \<le> s" "s < 86400"
    by simp_all
  let ?t = "\<lparr>hour = s div 3600, minute = s mod 3600 div 60, second = s mod 60\<rparr>"
  have "seconds_to_time (PyInt s) = Inr ?t"
    using r by (simp add: seconds_to_time_int_in_range)
  moreover have "time_to_seconds ?t = s"
    using seconds_split [of s] by (simp add: time_to_seconds_def)
  moreover have "hour ?t < 24"
    using r by (simp add: div_less_iff_less_mult)
  ultimately show "\<exists>t. seconds_to_time (PyInt s) = Inr t \<and> time_to_seconds t = s \<and> hour t < 24"
    by blast
next
  assume "86400 \<le> s"
  then show "\<exists>e. seconds_to_time (PyInt s) = Inl e"
    by (simp add: seconds_to_time_int_too_large)
qed

text \<open>
  The amended C5 at 3661 seconds (01:01:01), at 90000 seconds and at \<open>3600 * 2\<^sup>3\<^sup>1\<close>
  seconds.
\<close>

theorem seconds_round_trip_witness:
  "(\<exists>t. seconds_to_time (PyInt 3661) = Inr t \<and> time_to_seconds t = 3661 \<and> hour t < 24)
   \<and> (\<exists>e. seconds_to_time (PyInt 90000) = Inl e)
   \<and> (\<exists>e. seconds_to_time (PyInt 7730941132800) = Inl e)"
  using seconds_round_trip [of 3661] seconds_round_trip [of 90000]
    seconds_round_trip [of 7730941132800] by simp

text \<open>
  Which exception: \<^verbatim>\<open>ValueError\<close> while the hour is a C integer, \<^verbatim>\<open>OverflowError\<close> from
  \<open>3600 * 2\<^sup>3\<^sup>1\<close> seconds on.
\<close>

lemma seconds_to_time_exceptions:
  "seconds_to_time (PyInt 90000) = Inl ValueError"
  "seconds_to_time (PyInt 7730941132799) = Inl ValueError"
  "seconds_to_time (PyInt 7730941132800) = Inl OverflowError"
  by (simp_all add: seconds_to_time_int_too_large)

lemma datetime_time_InrD:
  "datetime_time h m s = Inr t \<Longrightarrow> t = \<lparr>hour = h, minute = m, second = s\<rparr>"
  unfolding datetime_time_def by (simp split: if_splits)

lemma hms_in_range:
  assumes "0 \<le> s" "s < 86400"
  shows "datetime_time (s div 3600) (s mod 3600 div 60) (s mod 60) =
           Inr \<lparr>hour = s div 3600, minute = s mod 3600 div 60, second = s mod 60\<rparr>"
  using seconds_to_time_int_in_range [OF assms] by (simp add: seconds_to_time_def)

lemma py_int_div_1000_nonneg:
  assumes "0 \<le> m"
  shows "py_int (of_int m / 1000) = m div 1000"
proof -
  have "(0::rat) \<le> of_int m / 1000"
    using assms by simp
  moreover have "\<lfloor>(of_int m :: rat) / 1000\<rfloor> = m div 1000"
    using floor_divide_of_int_eq [of m 1000, where ?'a = rat] by simp
  ultimately show ?thesis
    by (simp add: py_int_def)
qed

lemma milliseconds_to_time_nonneg:
  "0 \<le> m \<Longrightarrow>
   milliseconds_to_time m =
     datetime_time (m div 1000 div 3600) (m div 1000 mod 3600 div 60) (m div 1000 mod 60)"
  by (simp only: milliseconds_to_time_def py_int_div_1000_nonneg Let_def)

lemma milliseconds_to_time_in_range:
  assumes "0 \<le> m" "m < 86400000"
  shows "milliseconds_to_time m =
     Inr \<lparr>hour = m div 1000 div 3600, minute = m div 1000 mod 3600 div 60,
          second = m div 1000 mod 60\<rparr>"
proof -
  define s where "s = m div 1000"
  have "0 \<le> s"
    unfolding s_def using assms(1) by (simp add: pos_imp_zdiv_nonneg_iff)
  moreover have "s < 86400"
    unfolding s_def using assms(2) by (simp add: div_less_iff_less_mult)
  ultimately have "datetime_time (s div 3600) (s mod 3600 div 60) (s mod 60) =
           Inr \<lparr>hour = s div 3600, minute = s mod 3600 div 60, second = s mod 60\<rparr>"
    by (rule hms_in_range)
  then show ?thesis
    unfolding s_def milliseconds_to_time_nonneg [OF assms(1)] .
qed

lemma milliseconds_to_time_seconds:
  assumes "0 \<le> m" "milliseconds_to_time m = Inr t"
  shows "time_to_seconds t = m div 1000"
proof -
  define s where "s = m div 1000"
  have "datetime_time (s div 3600) (s mod 3600 div 60) (s mod 60) = Inr t"
    unfolding s_def using assms by (simp only: milliseconds_to_time_nonneg)
  then have "t = \<lparr>hour = s div 3600, minute = s mod 3600 div 60, second = s mod 60\<rparr>"
    by (rule datetime_time_InrD)
  then have "time_to_seconds t = s"
    using seconds_split [of s] by (simp add: time_to_seconds_def)
  then show ?thesis
    by (simp add: s_def)
qed

section \<open>\<^verbatim>\<open>valid_filename\<close>\<close>

lemma lstrip_dropWhile: "lstrip s = dropWhile is_space s"
  by (induction s) simp_all

lemma strip_trim_spec: "strip s = trim_spec s"
  by (simp add: strip_def trim_spec_def lstrip_dropWhile)

lemma replace_map: "replace old new s = map (\<lambda>c. if c = old then new else c) s"
  by (induction s) simp_all

lemma re_sub_class_filter: "re_sub_class cls s = filter (\<lambda>c. \<not> cls c) s"
  by (induction s) simp_all

text \<open>
  C10: \<^verbatim>\<open>valid_filename\<close> trims its argument, replaces spaces by underscores and then
  removes every character that is not a word character, a hyphen or a period; and
  \<^verbatim>\<open>valid_filename("My Chapter: Part 1!")\<close> is \<^verbatim>\<open>"My_Chapter_Part_1"\<close>.
\<close>

theorem valid_filename_trim_replace_strip:
  "valid_filename s = valid_filename_spec s
   \<and> valid_filename ''My Chapter: Part 1!'' = ''My_Chapter_Part_1''"
proof
  have "(\<lambda>c. \<not> not_filename_char c) = (\<lambda>c. is_word c \<or> c = CHR ''-'' \<or> c = CHR ''.'')"
    by (auto simp: not_filename_char_def)
  then show "valid_filename s = valid_filename_spec s"
    by (simp add: valid_filename_def valid_filename_spec_def strip_trim_spec replace_map
        re_sub_class_filter)
next
  show "valid_filename ''My Chapter: Part 1!'' = ''My_Chapter_Part_1''"
    by (simp add: valid_filename_def strip_def is_space_def is_word_def not_filename_char_def)
qed

section \<open>The marker parser\<close>

subsection \<open>Chapter extraction\<close>

lemma build_chapters_Cons_Inr:
  assumes "build_chapters v (r # raw) = Inr cs"
  shows "\<exists>c cs'. cs = c # cs'
    \<and> milliseconds_to_time (chapterRenderer.timeRangeStartMillis r) = Inr (Chapter.start_time c)
    \<and> build_chapters v raw = Inr cs'
    \<and> (case raw of
        n # _ \<Rightarrow> milliseconds_to_time (chapterRenderer.timeRangeStartMillis n)
      | [] \<Rightarrow> (case duration (ydl_info v) of
                 None \<Rightarrow> Inl KeyError
               | Some d \<Rightarrow> seconds_to_time d)) = Inr (Chapter.end_time c)"
proof -
  let ?fin = "(case raw of
        n # _ \<Rightarrow> milliseconds_to_time (chapterRenderer.timeRangeStartMillis n)
      | [] \<Rightarrow> (case duration (ydl_info v) of
                 None \<Rightarrow> Inl KeyError
               | Some d \<Rightarrow> seconds_to_time d))"
  from assms obtain finish where f: "?fin = Inr finish"
    by (cases ?fin) simp_all
  from assms f obtain start where
    s: "milliseconds_to_time (chapterRenderer.timeRangeStartMillis r) = Inr start"
    by (cases "milliseconds_to_time (chapterRenderer.timeRangeStartMillis r)") simp_all
  from assms f s obtain cs' where c: "build_chapters v raw = Inr cs'"
    by (cases "build_chapters v raw") simp_all
  from assms f s c have "cs = \<lparr>title = simpleText r, start_time = start, end_time = finish,
            thumbnails = chapterRenderer.thumbnails r\<rparr> # cs'"
    by simp
  with f s c show ?thesis by simp
qed

lemma build_chapters_length:
  "build_chapters v raw = Inr cs \<Longrightarrow> length cs = length raw"
proof (induction raw arbitrary: cs)
  case Nil
  then show ?case by simp
next
  case (Cons r raw)
  from build_chapters_Cons_Inr [OF Cons.prems]
  obtain c cs' where "cs = c # cs'" "build_chapters v raw = Inr cs'"
    by blast
  then show ?case using Cons.IH by simp
qed

lemma build_chapters_first:
  assumes "build_chapters v (r # raw) = Inr cs"
  shows "cs \<noteq> [] \<and> milliseconds_to_time (chapterRenderer.timeRangeStartMillis r)
       = Inr (Chapter.start_time (hd cs))"
  using build_chapters_Cons_Inr [OF assms] by auto

lemma build_chapters_adjacent:
  "build_chapters v raw = Inr cs \<Longrightarrow> Suc i < length cs \<Longrightarrow>
     Chapter.end_time (cs ! i) = Chapter.start_time (cs ! Suc i)"
proof (induction raw arbitrary: cs i)
  case Nil
  then show ?case by simp
next
  case (Cons r raw)
  from build_chapters_Cons_Inr [OF Cons.prems(1)]
  obtain c cs' where cs: "cs = c # cs'" "build_chapters v raw = Inr cs'"
    and fin: "(case raw of
        n # _ \<Rightarrow> milliseconds_to_time (chapterRenderer.timeRangeStartMillis n)
      | [] \<Rightarrow> (case duration (ydl_info v) of
                 None \<Rightarrow> Inl KeyError
               | Some d \<Rightarrow> seconds_to_time d)) = Inr (Chapter.end_time c)"
    by blast
  show ?case
  proof (cases i)
    case 0
    with Cons.prems(2) cs have ne: "cs' \<noteq> []" by auto
    with cs(2) obtain n raw' where raw: "raw = n # raw'" by (cases raw) auto
    have "milliseconds_to_time (chapterRenderer.timeRangeStartMillis n) = Inr (Chapter.end_time c)"
      using fin raw by simp
    moreover have "milliseconds_to_time (chapterRenderer.timeRangeStartMillis n)
        = Inr (Chapter.start_time (hd cs'))"
      using build_chapters_first cs(2) raw by blast
    ultimately show ?thesis using 0 cs ne by (simp add: hd_conv_nth)
  next
    case (Suc j)
    then show ?thesis using Cons.IH [OF cs(2), of j] Cons.prems(2) cs by simp
  qed
qed

lemma build_chapters_last:
  "build_chapters v raw = Inr cs \<Longrightarrow> raw \<noteq> [] \<Longrightarrow>
     \<exists>d. duration (ydl_info v) = Some d \<and> seconds_to_time d = Inr (Chapter.end_time (last cs))"
proof (induction raw arbitrary: cs)
  case Nil
  then show ?case by simp
next
  case (Cons r raw)
  from build_chapters_Cons_Inr [OF Cons.prems(1)]
  obtain c cs' where cs: "cs = c # cs'" "build_chapters v raw = Inr cs'"
    and fin: "(case raw of
        n # _ \<Rightarrow> milliseconds_to_time (chapterRenderer.timeRangeStartMillis n)
      | [] \<Rightarrow> (case duration (ydl_info v) of
                 None \<Rightarrow> Inl KeyError
               | Some d \<Rightarrow> seconds_to_time d)) = Inr (Chapter.end_time c)"
    by blast
  show ?case
  proof (cases raw)
    case Nil
    then have "cs' = []" using cs(2) by simp
    then show ?thesis using fin Nil cs(1) by (simp split: option.splits)
  next
    case (Cons n raw')
    then have "cs' \<noteq> []" using cs(2) build_chapters_first by blast
    then show ?thesis using Cons.IH [OF cs(2)] Cons cs by simp
  qed
qed

lemma build_chapters_succeeds:
  assumes "\<forall>r \<in> set raw. 0 \<le> chapterRenderer.timeRangeStartMillis r
              \<and> chapterRenderer.timeRangeStartMillis r < 86400000"
    and "duration (ydl_info v) = Some d" and "seconds_to_time d = Inr t"
  shows "\<exists>cs. build_chapters v raw = Inr cs"
  using assms(1)
proof (induction raw)
  case Nil
  show ?case by simp
next
  case (Cons r raw)
  then obtain cs where cs: "build_chapters v raw = Inr cs"
    by auto
  have s: "\<exists>start. milliseconds_to_time (chapterRenderer.timeRangeStartMillis r) = Inr start"
    using Cons.prems by (simp add: milliseconds_to_time_in_range)
  have f: "\<exists>finish. (case raw of
        n # _ \<Rightarrow> milliseconds_to_time (chapterRenderer.timeRangeStartMillis n)
      | [] \<Rightarrow> (case duration (ydl_info v) of
                 None \<Rightarrow> Inl KeyError
               | Some d \<Rightarrow> seconds_to_time d)) = Inr finish"
  proof (cases raw)
    case Nil
    then show ?thesis using assms(2,3) by simp
  next
    case (Cons n raw')
    then show ?thesis using Cons.prems by (simp add: milliseconds_to_time_in_range)
  qed
  from s f cs show ?case
    by auto
qed

text \<open>
  C6, as the specification states it, fails: the first chapter starts where the first raw
  chapter starts, which need not be 0. For one raw chapter at 5000 ms in a video of 60
  seconds, the only chapter starts at 00:00:05.
\<close>

theorem get_chapters_partition_counterexample:
  "get_chapters
     [(''DESCRIPTION_CHAPTERS'',
       chapters_value [\<lparr>simpleText = ''A'', timeRangeStartMillis = 5000, thumbnails = []\<rparr>])]
     \<lparr>url = ''u'', ydl_info = \<lparr>id' = Some ''v'', duration = Some (PyInt 60)\<rparr>\<rparr>
   = Inr [\<lparr>title = ''A'', start_time = \<lparr>hour = 0, minute = 0, second = 5\<rparr>,
           end_time = \<lparr>hour = 0, minute = 1, second = 0\<rparr>, thumbnails = []\<rparr>]
   \<and> time_to_seconds \<lparr>hour = 0, minute = 0, second = 5\<rparr> = 5"
  by (simp add: get_chapters_def milliseconds_to_time_nonneg seconds_to_time_def
      datetime_time_def c_int_def time_to_seconds_def)

text \<open>
  C6 (amended): whenever chapter extraction returns a non-empty list of chapters, there
  is one chapter for each raw chapter, the start of the first chapter is the converted
  start offset of the first raw chapter, the end of each chapter is the start of the
  next one, and the end of the last chapter is the converted duration of the video.
\<close>

theorem get_chapters_partition:
  assumes "get_chapters md video = Inr cs" and "cs \<noteq> []"
  shows "\<exists>raw d. chapter_data md = Inr raw \<and> length cs = length raw
           \<and> duration (ydl_info video) = Some d
           \<and> milliseconds_to_time (chapterRenderer.timeRangeStartMillis (hd raw))
               = Inr (Chapter.start_time (hd cs))
           \<and> (\<forall>i. Suc i < length cs \<longrightarrow>
                 Chapter.end_time (cs ! i) = Chapter.start_time (cs ! Suc i))
           \<and> seconds_to_time d = Inr (Chapter.end_time (last cs))"
proof -
  from assms(1) obtain raw where raw: "chapter_data md = Inr raw" "build_chapters video raw = Inr cs"
    by (auto simp: get_chapters_def split: sum.splits)
  have len: "length cs = length raw"
    using raw(2) by (rule build_chapters_length)
  with assms(2) obtain r raw' where r: "raw = r # raw'"
    by (cases raw) auto
  have first: "milliseconds_to_time (chapterRenderer.timeRangeStartMillis (hd raw))
               = Inr (Chapter.start_time (hd cs))"
    using build_chapters_first raw(2) r by fastforce
  have adj: "\<forall>i. Suc i < length cs \<longrightarrow>
                 Chapter.end_time (cs ! i) = Chapter.start_time (cs ! Suc i)"
    using build_chapters_adjacent [OF raw(2)] by blast
  obtain d where d: "duration (ydl_info video) = Some d"
      "seconds_to_time d = Inr (Chapter.end_time (last cs))"
    using build_chapters_last [OF raw(2)] r by auto
  show ?thesis
    using raw(1) len first adj d by blast
qed


text \<open>The amended C6 on the example: three chapters that partition the three minutes.\<close>

theorem get_chapters_partition_witness:
  "get_chapters example_marker_data example_video = Inr example_chapters
   \<and> example_chapters \<noteq> []
   \<and> length example_chapters = 3
   \<and> milliseconds_to_time 0 = Inr (Chapter.start_time (hd example_chapters))
   \<and> Chapter.end_time (example_chapters ! 0) = Chapter.start_time (example_chapters ! 1)
   \<and> Chapter.end_time (example_chapters ! 1) = Chapter.start_time (example_chapters ! 2)
   \<and> seconds_to_time (PyInt 180) = Inr (Chapter.end_time (last example_chapters))"
proof -
  have h: "get_chapters example_marker_data example_video = Inr example_chapters"
    by (simp add: get_chapters_def example_marker_data_def example_video_def
        example_chapters_def example_chapter_def milliseconds_to_time_nonneg
        seconds_to_time_def datetime_time_def c_int_def)
  have ne: "example_chapters \<noteq> []"
    by (simp add: example_chapters_def)
  have len: "length example_chapters = 3"
    by (simp add: example_chapters_def)
  from get_chapters_partition [OF h ne] obtain raw d where
    p: "chapter_data example_marker_data = Inr raw"
      "duration (ydl_info example_video) = Some d"
      "milliseconds_to_time (chapterRenderer.timeRangeStartMillis (hd raw))
         = Inr (Chapter.start_time (hd example_chapters))"
      "\<forall>i. Suc i < length example_chapters \<longrightarrow>
         Chapter.end_time (example_chapters ! i) = Chapter.start_time (example_chapters ! Suc i)"
      "seconds_to_time d = Inr (Chapter.end_time (last example_chapters))"
    by blast
  have d: "d = PyInt 180"
    using p(2) by (simp add: example_video_def)
  have r: "chapterRenderer.timeRangeStartMillis (hd raw) = 0"
    using p(1) by (auto simp: example_marker_data_def)
  have a0: "Chapter.end_time (example_chapters ! 0) = Chapter.start_time (example_chapters ! 1)"
    using p(4) len by simp
  have a1: "Chapter.end_time (example_chapters ! 1) = Chapter.start_time (example_chapters ! 2)"
    using p(4) [rule_format, of 1] len by (simp add: numeral_2_eq_2)
  show ?thesis
    using h ne len p(3,5) d r a0 a1 by simp
qed

subsection \<open>Heatmap extraction\<close>

lemma matching_chapter_append:
  "matching_chapter t (cs @ [c]) m =
     (if time_le (Chapter.start_time c) t then Some c else matching_chapter t cs m)"
  by (induction cs arbitrary: m) simp_all

lemma last_qualifying_Nil: "last_qualifying t [] = None"
  by (simp add: last_qualifying_def)

lemma last_qualifying_snoc:
  "last_qualifying t (cs @ [c]) =
     (if time_le (Chapter.start_time c) t then Some c else last_qualifying t cs)"
  by (simp add: last_qualifying_def)

lemma matching_chapter_last_qualifying: "matching_chapter t cs None = last_qualifying t cs"
proof (induction cs rule: rev_induct)
  case Nil
  show ?case by (simp add: last_qualifying_Nil)
next
  case (snoc c cs)
  then show ?case by (simp add: matching_chapter_append last_qualifying_snoc)
qed

lemma last_qualifying_None_iff:
  "last_qualifying t cs = None \<longleftrightarrow> (\<forall>c \<in> set cs. \<not> time_le (Chapter.start_time c) t)"
  by (simp add: last_qualifying_def filter_empty_conv)

lemma heatmap_of_chapter:
  assumes "heatmap_of chs r = Inr h"
  shows "\<exists>cs t. chs = Some cs
           \<and> milliseconds_to_time (heatMarkerRenderer.timeRangeStartMillis r) = Inr t
           \<and> Heatmap.start_time h = Some t \<and> chapter h = last_qualifying t cs"
  using assms
  by (cases chs)
    (auto simp: heatmap_of_def matching_chapter_last_qualifying split: sum.splits)

lemma build_heatmaps_chapter:
  assumes "build_heatmaps chs rs = Inr hs"
  shows "list_all2 (\<lambda>r h. \<exists>cs t. chs = Some cs
           \<and> milliseconds_to_time (heatMarkerRenderer.timeRangeStartMillis r) = Inr t
           \<and> Heatmap.start_time h = Some t \<and> chapter h = last_qualifying t cs) rs hs"
  using assms
proof (induction rs arbitrary: hs)
  case Nil
  then show ?case by simp
next
  case (Cons r rs)
  from Cons.prems obtain h hs' where h: "heatmap_of chs r = Inr h"
    "build_heatmaps chs rs = Inr hs'" "hs = h # hs'"
    by (auto split: sum.splits)
  from heatmap_of_chapter [OF h(1)] Cons.IH [OF h(2)] h(3) show ?case
    by simp
qed

lemma build_heatmaps_succeeds:
  assumes "\<forall>r \<in> set rs. 0 \<le> heatMarkerRenderer.timeRangeStartMillis r
              \<and> 0 \<le> markerDurationMillis r
              \<and> heatMarkerRenderer.timeRangeStartMillis r + markerDurationMillis r < 86400000"
  shows "\<exists>hs. build_heatmaps (Some cs) rs = Inr hs \<and> length hs = length rs"
  using assms
proof (induction rs)
  case Nil
  show ?case by simp
next
  case (Cons r rs)
  then obtain hs where hs: "build_heatmaps (Some cs) rs = Inr hs" "length hs = length rs"
    by auto
  have r: "0 \<le> heatMarkerRenderer.timeRangeStartMillis r"
    "heatMarkerRenderer.timeRangeStartMillis r < 86400000"
    "0 \<le> heatMarkerRenderer.timeRangeStartMillis r + markerDurationMillis r"
    "heatMarkerRenderer.timeRangeStartMillis r + markerDurationMillis r < 86400000"
    using Cons.prems by auto
  have "\<exists>h. heatmap_of (Some cs) r = Inr h"
    by (simp add: heatmap_of_def milliseconds_to_time_in_range [OF r(1,2)]
        milliseconds_to_time_in_range [OF r(3,4)])
  with hs show ?case
    by auto
qed

text \<open>
  C1: every heatmap that \<^verbatim>\<open>get_heatmaps\<close> returns was built from a list of chapters
  and has a start time, and its chapter is the last chapter in list order whose start is
  at most that time; the chapter is unset exactly when no chapter qualifies, as when the
  list of chapters is empty.
\<close>

theorem get_heatmaps_last_qualifying:
  assumes "get_heatmaps md chs = Inr hs"
  shows "\<forall>h \<in> set hs. \<exists>cs t. chs = Some cs \<and> Heatmap.start_time h = Some t
           \<and> chapter h = last_qualifying t cs
           \<and> (chapter h = None \<longleftrightarrow> (\<forall>c \<in> set cs. \<not> time_le (Chapter.start_time c) t))"
proof -
  from assms obtain rs where rs: "heatmap_data md = Inr rs" "build_heatmaps chs rs = Inr hs"
    by (auto simp: get_heatmaps_def split: sum.splits)
  have "list_all2 (\<lambda>r h. \<exists>cs t. chs = Some cs
           \<and> milliseconds_to_time (heatMarkerRenderer.timeRangeStartMillis r) = Inr t
           \<and> Heatmap.start_time h = Some t \<and> chapter h = last_qualifying t cs) rs hs"
    using rs(2) by (rule build_heatmaps_chapter)
  then have "\<forall>h \<in> set hs. \<exists>cs t. chs = Some cs \<and> Heatmap.start_time h = Some t
      \<and> chapter h = last_qualifying t cs"
    by (fastforce simp: list_all2_conv_all_nth in_set_conv_nth)
  then show ?thesis
    by (metis last_qualifying_None_iff)
qed

text \<open>
  C1 on the example: with chapters at 0, 60 and 120 seconds, the heatmap at 90 seconds
  gets the chapter that starts at 60 seconds.
\<close>

theorem get_heatmaps_last_qualifying_witness:
  "get_heatmaps example_marker_data (Some example_chapters) = Inr [example_heatmap]
   \<and> chapter example_heatmap
       = last_qualifying \<lparr>hour = 0, minute = 1, second = 30\<rparr> example_chapters
   \<and> chapter example_heatmap = Some (example_chapter ''Middle'' 1 2)"
proof -
  have h: "get_heatmaps example_marker_data (Some example_chapters) = Inr [example_heatmap]"
    by (simp add: get_heatmaps_def heatmap_of_def example_marker_data_def
        example_chapters_def example_chapter_def example_heatmap_def
        milliseconds_to_time_nonneg datetime_time_def c_int_def time_le_def)
  have c: "chapter example_heatmap = Some (example_chapter ''Middle'' 1 2)"
    by (simp add: example_heatmap_def)
  have s: "Heatmap.start_time example_heatmap = Some \<lparr>hour = 0, minute = 1, second = 30\<rparr>"
    by (simp add: example_heatmap_def)
  from get_heatmaps_last_qualifying [OF h] obtain cs t where
    "Some example_chapters = Some cs"
    "Heatmap.start_time example_heatmap = Some t"
    "chapter example_heatmap = last_qualifying t cs"
    by auto
  then have t: "Heatmap.start_time example_heatmap = Some t"
      "chapter example_heatmap = last_qualifying t example_chapters"
    by simp_all
  have "t = \<lparr>hour = 0, minute = 1, second = 30\<rparr>"
    using t(1) s by simp
  then show ?thesis
    using h c t(2) by simp
qed

section \<open>Ranking and merging\<close>

subsection \<open>One iteration of the merge loop\<close>

lemma merge_step_no_chapter:
  "chapter (H (attrs a)) = None \<Longrightarrow> merge_step count a H m = (H, Inr m)"
  by (simp add: merge_step_def)


lemma merge_step_admitted:
  assumes "chapter (H (attrs a)) = Some c" and "map_of m (title c) = Some b"
    and "Heatmap.start_time (H (attrs a)) = Some sa"
    and "Heatmap.end_time (H (attrs a)) = Some ea"
    and "Heatmap.start_time (H (attrs b)) = Some sb"
    and "Heatmap.end_time (H (attrs b)) = Some eb"
  shows "merge_step count a H m =
           (H(attrs b := (H (attrs b))\<lparr>Heatmap.start_time := Some (time_min sa sb),
                                       Heatmap.end_time := Some (time_max eb ea)\<rparr>), Inr m)"
proof (cases "attrs a = attrs b")
  case True
  then show ?thesis
    using assms by (auto simp: merge_step_def time_min_def time_max_def Let_def fun_upd_idem)
next
  case False
  then show ?thesis
    using assms
    by (auto simp: merge_step_def time_min_def time_max_def Let_def fun_upd_idem)
qed

text \<open>What one iteration may change.\<close>

lemma merge_step_frame:
  assumes "merge_step count a H m = (H', res)"
  shows "chapter (H' x) = chapter (H x)"
    and "intensity_score_normalised (H' x) = intensity_score_normalised (H x)"
    and "x \<notin> attrs ` snd ` set m \<Longrightarrow> H' x = H x"
proof -
  have in_m: "\<And>t b. map_of m t = Some b \<Longrightarrow> attrs b \<in> attrs ` snd ` set m"
    by (metis map_of_SomeD snd_conv image_eqI)
  show "chapter (H' x) = chapter (H x)"
    using assms
    by (auto simp: merge_step_def Let_def split: option.splits if_splits)
  show "intensity_score_normalised (H' x) = intensity_score_normalised (H x)"
    using assms
    by (auto simp: merge_step_def Let_def split: option.splits if_splits)
  show "x \<notin> attrs ` snd ` set m \<Longrightarrow> H' x = H x"
    using assms in_m
    by (auto simp: merge_step_def Let_def split: option.splits if_splits)
qed

lemma merge_step_merged:
  assumes "merge_step count a H m = (H', Inr m')"
  shows "m' = m \<or> (\<exists>t. m' = m @ [(t, a)] \<and> map_of m t = None \<and> int (length m) \<le> count
           \<and> chapter (H (attrs a)) \<noteq> None)"
  using assms
  by (auto simp: merge_step_def Let_def split: option.splits if_splits)

lemma merge_loop_frame:
  assumes "merge_loop count as H m = (H', res)"
  shows "chapter (H' x) = chapter (H x)
    \<and> intensity_score_normalised (H' x) = intensity_score_normalised (H x)
    \<and> (\<forall>m'. res = Inr m' \<longrightarrow> (x \<notin> attrs ` snd ` set m' \<longrightarrow> H' x = H x)
          \<and> set m \<subseteq> set m'
          \<and> length m' \<le> max (length m) (nat (count + 1))
          \<and> (distinct (map fst m) \<longrightarrow> distinct (map fst m')))"
  using assms
proof (induction as arbitrary: H m)
  case Nil
  then show ?case by auto
next
  case (Cons a as)
  obtain H1 r1 where s: "merge_step count a H m = (H1, r1)"
    by (cases "merge_step count a H m")
  note f = merge_step_frame [OF s, of x]
  show ?case
  proof (cases r1)
    case (Inl e)
    with Cons.prems s have "H' = H1" "res = Inl e" by simp_all
    with f show ?thesis by simp
  next
    case (Inr m1)
    with Cons.prems s have l: "merge_loop count as H1 m1 = (H', res)" by simp
    note ih = Cons.IH [OF l]
    from s Inr have m1: "m1 = m \<or> (\<exists>t. m1 = m @ [(t, a)] \<and> map_of m t = None
        \<and> int (length m) \<le> count \<and> chapter (H (attrs a)) \<noteq> None)"
      using merge_step_merged by blast
    have sub: "set m \<subseteq> set m1" using m1 by auto
    have len: "max (length m1) (nat (count + 1)) \<le> max (length m) (nat (count + 1))"
      using m1 by auto
    have dist: "distinct (map fst m) \<Longrightarrow> distinct (map fst m1)"
      using m1 by (auto simp: map_of_eq_None_iff)
    show ?thesis
    proof (intro conjI allI impI)
      show "chapter (H' x) = chapter (H x)" using ih f by simp
      show "intensity_score_normalised (H' x) = intensity_score_normalised (H x)"
        using ih f by simp
    next
      fix m' assume r: "res = Inr m'"
      with ih have i: "x \<notin> attrs ` snd ` set m' \<longrightarrow> H' x = H1 x" "set m1 \<subseteq> set m'"
        "length m' \<le> max (length m1) (nat (count + 1))"
        "distinct (map fst m1) \<longrightarrow> distinct (map fst m')"
        by simp_all
      show "set m \<subseteq> set m'" using i(2) sub by blast
      show "length m' \<le> max (length m) (nat (count + 1))" using i(3) len by linarith
      { assume "distinct (map fst m)" then show "distinct (map fst m')" using dist i(4) by blast }
      { assume x: "x \<notin> attrs ` snd ` set m'"
        then have "x \<notin> attrs ` snd ` set m" using i(2) sub by blast
        then have "H1 x = H x" using f(3) by simp
        then show "H' x = H x" using i(1) x by simp }
    qed
  qed
qed

subsection \<open>Widening\<close>

lemma time_le_refl: "time_le t t"
  by (simp add: time_le_def)

lemma time_le_trans: "time_le a b \<Longrightarrow> time_le b c \<Longrightarrow> time_le a c"
  unfolding time_le_def by auto

lemma time_le_total: "time_le a b \<or> time_le b a"
  unfolding time_le_def by auto

lemma opt_time_le_refl: "opt_time_le a a"
  by (cases a) (simp_all add: opt_time_le_def time_le_refl)

lemma opt_time_le_trans: "opt_time_le a b \<Longrightarrow> opt_time_le b c \<Longrightarrow> opt_time_le a c"
  by (cases a; cases b; cases c) (auto simp: opt_time_le_def intro: time_le_trans)

lemma opt_time_le_None: "opt_time_le a b \<Longrightarrow> a = None \<longleftrightarrow> b = None"
  by (cases a; cases b) (simp_all add: opt_time_le_def)

lemma widens_refl: "widens h h"
  by (simp add: widens_def opt_time_le_refl)

lemma widens_trans: "widens h h1 \<Longrightarrow> widens h1 h2 \<Longrightarrow> widens h h2"
  unfolding widens_def by (auto intro: opt_time_le_trans)

lemma merge_step_widens:
  assumes "merge_step count a H m = (H', res)"
  shows "widens (H x) (H' x)"
  using assms
  by (auto simp: merge_step_def Let_def widens_def opt_time_le_def time_le_refl
      split: option.splits if_splits)

lemma merge_loop_widens:
  assumes "merge_loop count as H m = (H', res)"
  shows "widens (H x) (H' x)"
  using assms
proof (induction as arbitrary: H m)
  case Nil
  then show ?case by (simp add: widens_refl)
next
  case (Cons a as)
  obtain H1 r1 where s: "merge_step count a H m = (H1, r1)"
    by (cases "merge_step count a H m")
  note w = merge_step_widens [OF s, of x]
  show ?case
  proof (cases r1)
    case (Inl e)
    with Cons.prems s have "H' = H1" by simp
    with w show ?thesis by simp
  next
    case (Inr m1)
    with Cons.prems s have "merge_loop count as H1 m1 = (H', res)" by simp
    then have "widens (H1 x) (H' x)" by (rule Cons.IH)
    with w show ?thesis by (rule widens_trans)
  qed
qed

subsection \<open>When the merge loop returns\<close>

text \<open>
  The comparisons of the loop raise only on a time that is unset, and the loop never
  unsets a time: it returns when the heatmaps it reads have their times set.
\<close>

lemma merge_step_timed:
  assumes "merge_step count a H m = (H', res)"
  shows "timed H' r \<longleftrightarrow> timed H r"
  using merge_step_widens [OF assms, of "attrs r"]
  by (auto simp: timed_def widens_def dest: opt_time_le_None)

lemma merge_step_returns:
  assumes "chapter (H (attrs a)) \<noteq> None \<longrightarrow> timed H a"
    and "\<forall>b \<in> snd ` set m. timed H b"
  shows "\<exists>H' m'. merge_step count a H m = (H', Inr m')"
proof (cases "chapter (H (attrs a))")
  case None
  then show ?thesis by (simp add: merge_step_def)
next
  case (Some c)
  show ?thesis
  proof (cases "map_of m (title c)")
    case None
    with Some show ?thesis by (simp add: merge_step_def)
  next
    case (Some b)
    then have "b \<in> snd ` set m"
      by (metis map_of_SomeD snd_conv image_eqI)
    with assms(2) have "timed H b" by blast
    moreover have "timed H a"
      using assms(1) \<open>chapter (H (attrs a)) = Some c\<close> by simp
    ultimately obtain sa ea sb eb where
      "Heatmap.start_time (H (attrs a)) = Some sa" "Heatmap.end_time (H (attrs a)) = Some ea"
      "Heatmap.start_time (H (attrs b)) = Some sb" "Heatmap.end_time (H (attrs b)) = Some eb"
      by (auto simp: timed_def)
    with \<open>chapter (H (attrs a)) = Some c\<close> Some show ?thesis
      by (simp add: merge_step_admitted)
  qed
qed

lemma merge_loop_returns:
  assumes "\<forall>a \<in> set as. chapter (H (attrs a)) \<noteq> None \<longrightarrow> timed H a"
    and "\<forall>b \<in> snd ` set m. timed H b"
  shows "\<exists>H' m'. merge_loop count as H m = (H', Inr m')"
  using assms
proof (induction as arbitrary: H m)
  case Nil
  show ?case by simp
next
  case (Cons a as)
  have "\<exists>H1 m1. merge_step count a H m = (H1, Inr m1)"
    using Cons.prems by (intro merge_step_returns) simp_all
  then obtain H1 m1 where s: "merge_step count a H m = (H1, Inr m1)"
    by blast
  have t: "\<And>r. timed H1 r \<longleftrightarrow> timed H r"
    using s by (rule merge_step_timed)
  have c: "\<And>x. chapter (H1 x) = chapter (H x)"
    using s by (rule merge_step_frame(1))
  have p1: "\<forall>a' \<in> set as. chapter (H1 (attrs a')) \<noteq> None \<longrightarrow> timed H1 a'"
    using Cons.prems(1) t c by simp
  from s have "m1 = m \<or> (\<exists>t. m1 = m @ [(t, a)] \<and> map_of m t = None
      \<and> int (length m) \<le> count \<and> chapter (H (attrs a)) \<noteq> None)"
    by (rule merge_step_merged)
  then have p2: "\<forall>b \<in> snd ` set m1. timed H1 b"
    using Cons.prems t by auto
  from Cons.IH [OF p1 p2] s show ?case
    by simp
qed

subsection \<open>The whole method\<close>

lemma merge_loop_values:
  assumes "merge_loop count as H m = (H', Inr m')"
  shows "snd ` set m' \<subseteq> snd ` set m \<union> set as"
  using assms
proof (induction as arbitrary: H m)
  case Nil
  then show ?case by simp
next
  case (Cons a as)
  obtain H1 r1 where s: "merge_step count a H m = (H1, r1)"
    by (cases "merge_step count a H m")
  show ?case
  proof (cases r1)
    case (Inl e)
    with Cons.prems s show ?thesis by simp
  next
    case (Inr m1)
    with Cons.prems s have l: "merge_loop count as H1 m1 = (H', Inr m')" by simp
    from s Inr have "m1 = m \<or> (\<exists>t. m1 = m @ [(t, a)] \<and> map_of m t = None
        \<and> int (length m) \<le> count \<and> chapter (H (attrs a)) \<noteq> None)"
      using merge_step_merged by blast
    then have "snd ` set m1 \<subseteq> snd ` set m \<union> {a}"
      by auto
    with Cons.IH [OF l] show ?thesis by auto
  qed
qed

lemma slice_to_subset: "set (slice_to xs n) \<subseteq> set xs"
  by (auto simp: slice_to_def dest: in_set_takeD)

lemma merge_loop_outside:
  assumes "merge_loop count as H m = (H', res)"
    and "x \<notin> attrs ` snd ` set m" and "x \<notin> attrs ` set as"
  shows "H' x = H x"
  using assms
proof (induction as arbitrary: H m)
  case Nil
  then show ?case by simp
next
  case (Cons a as)
  obtain H1 r1 where s: "merge_step count a H m = (H1, r1)"
    by (cases "merge_step count a H m")
  have h1: "H1 x = H x"
    using merge_step_frame(3) [OF s] Cons.prems(2) by simp
  show ?case
  proof (cases r1)
    case (Inl e)
    with Cons.prems(1) s have "H' = H1" by simp
    with h1 show ?thesis by simp
  next
    case (Inr m1)
    with Cons.prems(1) s have l: "merge_loop count as H1 m1 = (H', res)" by simp
    from s Inr have "m1 = m \<or> (\<exists>t. m1 = m @ [(t, a)] \<and> map_of m t = None
        \<and> int (length m) \<le> count \<and> chapter (H (attrs a)) \<noteq> None)"
      using merge_step_merged by blast
    then have "snd ` set m1 \<subseteq> snd ` set m \<union> {a}"
      by auto
    then have "attrs ` snd ` set m1 \<subseteq> attrs ` (snd ` set m \<union> {a})"
      by (rule image_mono)
    then have "attrs ` snd ` set m1 \<subseteq> attrs ` snd ` set m \<union> {attrs a}"
      by simp
    then have "x \<notin> attrs ` snd ` set m1"
      using Cons.prems(2,3) by auto
    then have "H' x = H1 x"
      using Cons.IH [OF l] Cons.prems(3) by simp
    with h1 show ?thesis by simp
  qed
qed

lemma sorted_heatmaps_set:
  "sorted_heatmaps H as = Inr srt \<Longrightarrow> set srt = set as \<and> length srt = length as"
  by (auto simp: sorted_heatmaps_def split: if_splits)

lemma sorted_heatmaps_filter_length:
  "sorted_heatmaps H as = Inr srt \<Longrightarrow> length (filter P srt) = length (filter P as)"
  by (auto simp: sorted_heatmaps_def filter_sort split: if_splits)


lemma most_intense_heatmaps_merge_eq:
  assumes "sorted_heatmaps H (heatmaps self) = Inr srt"
    and "count \<le> int (length (filter (\<lambda>a. chapter (H (attrs a)) \<noteq> None) srt))"
    and "merge_loop count srt H [] = (H', Inr m)"
  shows "most_intense_heatmaps H self True count = (H', Inr (map snd m))"
  using assms by (simp add: most_intense_heatmaps_def)

lemma merge_loop_negative_count:
  "count < 0 \<Longrightarrow> merge_loop count as H [] = (H, Inr [])"
proof (induction as)
  case Nil
  show ?case by simp
next
  case (Cons a as)
  have "merge_step count a H [] = (H, Inr [])"
    using Cons.prems by (simp add: merge_step_def split: option.splits)
  then show ?case
    using Cons by simp
qed

lemma nat_add_negative: "n < 0 \<Longrightarrow> nat (int l + n) = l - nat (- n)"
  by arith

lemma slice_to_nonpositive:
  "n \<le> 0 \<Longrightarrow>
     slice_to xs n = (if n = 0 then [] else take (length xs - nat (- n)) xs)"
  by (simp add: slice_to_def nat_add_negative)

text \<open>
  With count 0 on the merge path, the method returns when every heatmap of the receiver
  that has a chapter has its times set, and then it returns at most one entry.
\<close>

lemma most_intense_heatmaps_count_zero:
  assumes "sorted_heatmaps H (heatmaps self) = Inr srt"
    and "\<forall>a \<in> set (heatmaps self). chapter (H (attrs a)) \<noteq> None \<longrightarrow> timed H a"
  shows "\<exists>H' r. most_intense_heatmaps H self True 0 = (H', Inr r) \<and> length r \<le> 1"
proof -
  have "set srt = set (heatmaps self)"
    using assms(1) sorted_heatmaps_set by blast
  with assms(2) have "\<forall>a \<in> set srt. chapter (H (attrs a)) \<noteq> None \<longrightarrow> timed H a"
    by simp
  then have "\<exists>H' m. merge_loop 0 srt H [] = (H', Inr m)"
    by (intro merge_loop_returns) simp_all
  then obtain H' m where l: "merge_loop 0 srt H [] = (H', Inr m)"
    by blast
  have "length m \<le> max (length ([] :: (string \<times> ref) list)) (nat (0 + 1))"
    using merge_loop_frame [OF l, of 0] by simp
  then have len: "length (map snd m) \<le> 1"
    by simp
  have "most_intense_heatmaps H self True 0 = (H', Inr (map snd m))"
    using assms(1) _ l by (rule most_intense_heatmaps_merge_eq) simp
  with len show ?thesis
    by blast
qed

subsection \<open>The two heatmaps of the chapter ``Intro''\<close>

lemma intro_merge_loop:
  assumes "0 \<le> count"
  shows "merge_loop count [Ref 0 0, Ref 1 1] (heap_of (intro_heatmaps i j)) []
      = ((heap_of (intro_heatmaps i j))
           (0 := (heap_of (intro_heatmaps i j) 0)\<lparr>Heatmap.end_time := Some (seconds 30)\<rparr>),
         Inr [(''Intro'', Ref 0 0)])"
    and "merge_loop count [Ref 1 1, Ref 0 0] (heap_of (intro_heatmaps i j)) []
      = ((heap_of (intro_heatmaps i j))
           (1 := (heap_of (intro_heatmaps i j) 1)\<lparr>Heatmap.start_time := Some (seconds 10)\<rparr>),
         Inr [(''Intro'', Ref 1 1)])"
  using assms
  by (simp_all add: merge_step_def heap_of_def intro_heatmaps_def example_chapter_def
      time_le_def seconds_def)

lemma intro_sorted:
  "sorted_heatmaps (heap_of (intro_heatmaps i j)) (heatmaps intro_video_heatmap)
     = Inr (if j \<le> i then [Ref 0 0, Ref 1 1] else [Ref 1 1, Ref 0 0])"
  by (simp add: sorted_heatmaps_def intensity_key_def heap_of_def intro_heatmaps_def
      intro_video_heatmap_def)

lemma intro_chaptered:
  "length (filter (\<lambda>a. chapter (heap_of (intro_heatmaps i j) (attrs a)) \<noteq> None)
     [Ref 0 0, Ref 1 1]) = 2"
  "length (filter (\<lambda>a. chapter (heap_of (intro_heatmaps i j) (attrs a)) \<noteq> None)
     [Ref 1 1, Ref 0 0]) = 2"
  by (simp_all add: heap_of_def intro_heatmaps_def)

lemma intro_timed:
  "\<forall>a \<in> set (heatmaps intro_video_heatmap).
     chapter (heap_of (intro_heatmaps i j) (attrs a)) \<noteq> None
       \<longrightarrow> timed (heap_of (intro_heatmaps i j)) a"
  by (simp add: intro_video_heatmap_def timed_def heap_of_def intro_heatmaps_def)


lemma intro_run:
  "most_intense_heatmaps (heap_of (intro_heatmaps (9 / 10) (1 / 2))) intro_video_heatmap True 1
     = ((heap_of (intro_heatmaps (9 / 10) (1 / 2)))
          (0 := (heap_of (intro_heatmaps (9 / 10) (1 / 2)) 0)
             \<lparr>Heatmap.end_time := Some (seconds 30)\<rparr>), Inr [Ref 0 0])"
proof -
  let ?H = "heap_of (intro_heatmaps (9 / 10) (1 / 2))"
  have s: "sorted_heatmaps ?H (heatmaps intro_video_heatmap) = Inr [Ref 0 0, Ref 1 1]"
    by (simp add: intro_sorted)
  have c: "1 \<le> int (length (filter (\<lambda>a. chapter (?H (attrs a)) \<noteq> None)
      [Ref 0 0, Ref 1 1]))"
    by (simp only: intro_chaptered)
  have l: "merge_loop 1 [Ref 0 0, Ref 1 1] ?H []
      = (?H(0 := (?H 0)\<lparr>Heatmap.end_time := Some (seconds 30)\<rparr>), Inr [(''Intro'', Ref 0 0)])"
    by (rule intro_merge_loop(1)) simp
  have "most_intense_heatmaps ?H intro_video_heatmap True 1
      = (?H(0 := (?H 0)\<lparr>Heatmap.end_time := Some (seconds 30)\<rparr>),
         Inr (map snd [(''Intro'', Ref 0 0)]))"
    using s c l by (rule most_intense_heatmaps_merge_eq)
  then show ?thesis
    by simp
qed

subsection \<open>Widening an admitted entry\<close>



subsection \<open>The admission bound\<close>



subsection \<open>What the method changes\<close>

text \<open>
  C8, as the specification states it, fails: the entries of the dictionary are the
  heatmaps of the receiver themselves, not copies. With the two ``Intro'' heatmaps and
  count 1, the end of the receiver's first heatmap is 20 seconds before the call and 30
  seconds after it.
\<close>

theorem most_intense_heatmaps_frame_counterexample:
  "hd (heatmaps intro_video_heatmap) = Ref 0 0
   \<and> Heatmap.end_time (heap_of (intro_heatmaps (9 / 10) (1 / 2)) (attrs (Ref 0 0)))
       = Some (seconds 20)
   \<and> Heatmap.end_time
        (fst (most_intense_heatmaps (heap_of (intro_heatmaps (9 / 10) (1 / 2)))
                intro_video_heatmap True 1) (attrs (Ref 0 0))) = Some (seconds 30)
   \<and> seconds 20 \<noteq> seconds 30"
  by (simp add: intro_run) (simp add: intro_video_heatmap_def heap_of_def intro_heatmaps_def
      seconds_def)

text \<open>
  C8 (amended): \<^verbatim>\<open>most_intense_heatmaps\<close> leaves the fields of every heatmap object \<open>obj\<close>
  as they were or widens its interval, and never changes a chapter or an intensity; it
  changes nothing at all when \<open>merge\<close> is false or fewer than \<open>count\<close> heatmaps of the
  receiver have a chapter; it changes no object that shares no attribute dictionary with
  a heatmap of the receiver's list; and when it returns, the heatmaps it returns are
  heatmaps of the receiver, and it has changed no object that shares no attribute
  dictionary with one of them.
\<close>

theorem most_intense_heatmaps_frame:
  assumes "most_intense_heatmaps H self merge count = (H', res)"
  shows "widens (H (attrs obj)) (H' (attrs obj))
    \<and> (\<not> merge
         \<or> int (length (filter (\<lambda>a. chapter (H (attrs a)) \<noteq> None) (heatmaps self))) < count
          \<longrightarrow> H' = H)
    \<and> (attrs obj \<notin> attrs ` set (heatmaps self) \<longrightarrow> H' (attrs obj) = H (attrs obj))
    \<and> (\<forall>r. res = Inr r \<longrightarrow>
          set r \<subseteq> set (heatmaps self)
          \<and> (attrs obj \<notin> attrs ` set r \<longrightarrow> H' (attrs obj) = H (attrs obj)))"
proof (cases "sorted_heatmaps H (heatmaps self)")
  case (Inl e)
  with assms have "H' = H" "res = Inl e"
    by (simp_all add: most_intense_heatmaps_def)
  then show ?thesis by (simp add: widens_refl)
next
  case (Inr srt)
  define x where "x = attrs obj"
  note srt = sorted_heatmaps_set [OF Inr]
  have flt: "length (filter (\<lambda>a. chapter (H (attrs a)) \<noteq> None) srt)
      = length (filter (\<lambda>a. chapter (H (attrs a)) \<noteq> None) (heatmaps self))"
    using Inr by (rule sorted_heatmaps_filter_length)
  show ?thesis
  proof (cases "\<not> merge
      \<or> int (length (filter (\<lambda>a. chapter (H (attrs a)) \<noteq> None) srt)) < count")
    case True
    with assms Inr have "H' = H" "res = Inr (slice_to srt count)"
      by (auto simp add: most_intense_heatmaps_def)
    then show ?thesis
      using slice_to_subset [of srt count] srt by (auto simp: widens_refl)
  next
    case False
    obtain H2 r2 where l: "merge_loop count srt H [] = (H2, r2)"
      by (cases "merge_loop count srt H []")
    from assms Inr False l have H': "H' = H2"
      by (auto simp add: most_intense_heatmaps_def split: sum.splits)
    from assms Inr False l have res: "\<And>r. res = Inr r \<Longrightarrow> \<exists>m. r2 = Inr m \<and> r = map snd m"
      by (auto simp add: most_intense_heatmaps_def split: sum.splits)
    note f = merge_loop_frame [OF l, of x]
    have w: "widens (H x) (H2 x)"
      using l by (rule merge_loop_widens)
    have out: "x \<notin> attrs ` set (heatmaps self) \<Longrightarrow> H2 x = H x"
      using merge_loop_outside [OF l, of x] srt by simp
    have ret: "\<And>r. res = Inr r \<Longrightarrow> x \<notin> attrs ` set r \<Longrightarrow> H2 x = H x"
    proof -
      fix r assume "res = Inr r" "x \<notin> attrs ` set r"
      with res obtain m where "r2 = Inr m" "x \<notin> attrs ` snd ` set m"
        by (auto simp: image_image)
      with f show "H2 x = H x" by simp
    qed
    have own: "\<And>r. res = Inr r \<Longrightarrow> set r \<subseteq> set (heatmaps self)"
    proof -
      fix r assume "res = Inr r"
      with res obtain m where m: "r2 = Inr m" "r = map snd m" by auto
      with l have "snd ` set m \<subseteq> snd ` set ([] :: (string \<times> ref) list) \<union> set srt"
        using merge_loop_values by blast
      with m(2) srt show "set r \<subseteq> set (heatmaps self)" by auto
    qed
    show ?thesis
      unfolding x_def [symmetric]
      using w H' out ret own False flt by auto
  qed
qed

text \<open>
  The amended C8 on the two ``Intro'' heatmaps with count 1: the returned first heatmap
  is widened and the second heatmap is as before.
\<close>

theorem most_intense_heatmaps_frame_witness:
  "most_intense_heatmaps (heap_of (intro_heatmaps (9 / 10) (1 / 2))) intro_video_heatmap True 1
     = ((heap_of (intro_heatmaps (9 / 10) (1 / 2)))
          (0 := (heap_of (intro_heatmaps (9 / 10) (1 / 2)) 0)
             \<lparr>Heatmap.end_time := Some (seconds 30)\<rparr>), Inr [Ref 0 0])
   \<and> ((heap_of (intro_heatmaps (9 / 10) (1 / 2)))
          (0 := (heap_of (intro_heatmaps (9 / 10) (1 / 2)) 0)
             \<lparr>Heatmap.end_time := Some (seconds 30)\<rparr>)) (attrs (Ref 1 1))
       = heap_of (intro_heatmaps (9 / 10) (1 / 2)) (attrs (Ref 1 1))
   \<and> widens (heap_of (intro_heatmaps (9 / 10) (1 / 2)) (attrs (Ref 0 0)))
        ((heap_of (intro_heatmaps (9 / 10) (1 / 2)) 0)
             \<lparr>Heatmap.end_time := Some (seconds 30)\<rparr>)"
proof -
  let ?H = "heap_of (intro_heatmaps (9 / 10) (1 / 2))"
  let ?H' = "?H(0 := (?H 0)\<lparr>Heatmap.end_time := Some (seconds 30)\<rparr>)"
  have run: "most_intense_heatmaps ?H intro_video_heatmap True 1 = (?H', Inr [Ref 0 0])"
    by (rule intro_run)
  have f1: "?H' (attrs (Ref 1 1)) = ?H (attrs (Ref 1 1))"
    using most_intense_heatmaps_frame [OF run, of "Ref 1 1"] by simp
  have "widens (?H (attrs (Ref 0 0))) (?H' (attrs (Ref 0 0)))"
    using most_intense_heatmaps_frame [OF run, of "Ref 0 0"] by blast
  then have f0: "widens (?H (attrs (Ref 0 0))) ((?H 0)\<lparr>Heatmap.end_time := Some (seconds 30)\<rparr>)"
    by simp
  show ?thesis
    using run f1 f0 by blast
qed

text \<open>
  An object outside the receiver's list that shares its attribute dictionary with a
  heatmap of the list changes with it. The objects passed to the constructor of the
  receiver are such objects: here \<open>Ref 7 0\<close> and \<open>Ref 8 1\<close> are the arguments, the receiver
  stores \<open>Ref 0 0\<close> and \<open>Ref 1 1\<close>, and the end of the first argument goes from 20 to 30
  seconds.
\<close>

lemma most_intense_heatmaps_changes_shared_object:
  "constructed_from intro_video_heatmap ''u'' [Ref 7 0, Ref 8 1]
   \<and> Ref 7 0 \<notin> set (heatmaps intro_video_heatmap)
   \<and> Heatmap.end_time (heap_of (intro_heatmaps (9 / 10) (1 / 2)) (attrs (Ref 7 0)))
       = Some (seconds 20)
   \<and> Heatmap.end_time
        (fst (most_intense_heatmaps (heap_of (intro_heatmaps (9 / 10) (1 / 2)))
                intro_video_heatmap True 1) (attrs (Ref 7 0))) = Some (seconds 30)"
  by (simp add: intro_run) (simp add: constructed_from_def intro_video_heatmap_def heap_of_def
      intro_heatmaps_def)

subsection \<open>A count of zero or less\<close>

text \<open>
  C9, as the specification states it, fails: the method has no check of \<open>count\<close>. With
  count 0 and \<open>merge\<close> false it returns the empty list.
\<close>

theorem most_intense_heatmaps_nonpositive_count_counterexample:
  "most_intense_heatmaps (heap_of (intro_heatmaps (9 / 10) (1 / 2))) intro_video_heatmap False 0
     = (heap_of (intro_heatmaps (9 / 10) (1 / 2)), Inr [])"
  by (simp add: most_intense_heatmaps_def intro_sorted slice_to_def)

text \<open>
  C9 (amended): for a count of zero or less, whenever the sort succeeds the method
  returns a list instead of rejecting the call. With \<open>merge\<close> false it returns the slice
  \<^verbatim>\<open>sorted_heatmaps[:count]\<close>, which is empty for count 0 and drops the last \<open>- count\<close>
  heatmaps for a negative count. With \<open>merge\<close> true it returns the empty list for a
  negative count, and for count 0 it returns a list of at most one entry, provided that
  every heatmap of the receiver that has a chapter has its start and its end set (the
  comparison of an unset time raises \<^verbatim>\<open>TypeError\<close>, whatever the count).
\<close>

theorem most_intense_heatmaps_nonpositive_count:
  "count \<le> 0 \<and> sorted_heatmaps H (heatmaps self) = Inr srt \<longrightarrow>
     most_intense_heatmaps H self False count
       = (H, Inr (if count = 0 then [] else take (length srt - nat (- count)) srt))
     \<and> (count < 0 \<longrightarrow> most_intense_heatmaps H self True count = (H, Inr []))
     \<and> (count = 0
          \<and> (\<forall>a \<in> set (heatmaps self). chapter (H (attrs a)) \<noteq> None \<longrightarrow> timed H a)
        \<longrightarrow> (\<exists>H' r. most_intense_heatmaps H self True count = (H', Inr r) \<and> length r \<le> 1))"
proof (intro impI conjI)
  assume a: "count \<le> 0 \<and> sorted_heatmaps H (heatmaps self) = Inr srt"
  then show "most_intense_heatmaps H self False count
       = (H, Inr (if count = 0 then [] else take (length srt - nat (- count)) srt))"
    by (simp add: most_intense_heatmaps_def slice_to_nonpositive)
  { assume "count < 0"
    then show "most_intense_heatmaps H self True count = (H, Inr [])"
      using a by (simp add: most_intense_heatmaps_def merge_loop_negative_count) }
  { assume "count = 0
      \<and> (\<forall>a \<in> set (heatmaps self). chapter (H (attrs a)) \<noteq> None \<longrightarrow> timed H a)"
    then show "\<exists>H' r. most_intense_heatmaps H self True count = (H', Inr r) \<and> length r \<le> 1"
      using a most_intense_heatmaps_count_zero [of H self srt] by simp }
qed

text \<open>The amended C9 on the two ``Intro'' heatmaps with counts \<open>- 1\<close> and 0.\<close>

theorem most_intense_heatmaps_nonpositive_count_witness:
  "sorted_heatmaps (heap_of (intro_heatmaps (9 / 10) (1 / 2))) (heatmaps intro_video_heatmap)
     = Inr [Ref 0 0, Ref 1 1]
   \<and> most_intense_heatmaps (heap_of (intro_heatmaps (9 / 10) (1 / 2))) intro_video_heatmap
        False (- 1) = (heap_of (intro_heatmaps (9 / 10) (1 / 2)), Inr [Ref 0 0])
   \<and> most_intense_heatmaps (heap_of (intro_heatmaps (9 / 10) (1 / 2))) intro_video_heatmap
        True (- 1) = (heap_of (intro_heatmaps (9 / 10) (1 / 2)), Inr [])
   \<and> most_intense_heatmaps (heap_of (intro_heatmaps (9 / 10) (1 / 2))) intro_video_heatmap
        False 0 = (heap_of (intro_heatmaps (9 / 10) (1 / 2)), Inr [])
   \<and> (\<exists>H' r. most_intense_heatmaps (heap_of (intro_heatmaps (9 / 10) (1 / 2)))
                 intro_video_heatmap True 0 = (H', Inr r) \<and> length r \<le> 1)"
proof -
  let ?H = "heap_of (intro_heatmaps (9 / 10) (1 / 2))"
  have s: "sorted_heatmaps ?H (heatmaps intro_video_heatmap) = Inr [Ref 0 0, Ref 1 1]"
    by (simp add: intro_sorted)
  have d: "\<forall>a \<in> set (heatmaps intro_video_heatmap).
      chapter (?H (attrs a)) \<noteq> None \<longrightarrow> timed ?H a"
    by (rule intro_timed)
  note t = most_intense_heatmaps_nonpositive_count
    [of "- 1" ?H intro_video_heatmap "[Ref 0 0, Ref 1 1]"]
  note z = most_intense_heatmaps_nonpositive_count
    [of 0 ?H intro_video_heatmap "[Ref 0 0, Ref 1 1]"]
  have f: "most_intense_heatmaps ?H intro_video_heatmap False (- 1) = (?H, Inr [Ref 0 0])"
    using t s by simp
  have m: "most_intense_heatmaps ?H intro_video_heatmap True (- 1) = (?H, Inr [])"
    using t s by simp
  have f0: "most_intense_heatmaps ?H intro_video_heatmap False 0 = (?H, Inr [])"
    using z s by simp
  have m0: "\<exists>H' r. most_intense_heatmaps ?H intro_video_heatmap True 0 = (H', Inr r)
      \<and> length r \<le> 1"
    using z s d by simp
  show ?thesis
    using s f m f0 m0 by blast
qed

text \<open>
  With a time unset the comparison in the merge loop raises, for count 0 as for any
  count on the merge path: here the second ``Intro'' heatmap has no start.
\<close>

lemma most_intense_heatmaps_unset_time:
  "most_intense_heatmaps
     ((heap_of (intro_heatmaps (9 / 10) (1 / 2)))
        (1 := (heap_of (intro_heatmaps (9 / 10) (1 / 2)) 1)\<lparr>Heatmap.start_time := None\<rparr>))
     intro_video_heatmap True n
   = ((heap_of (intro_heatmaps (9 / 10) (1 / 2)))
        (1 := (heap_of (intro_heatmaps (9 / 10) (1 / 2)) 1)\<lparr>Heatmap.start_time := None\<rparr>),
      if 0 \<le> n \<and> n \<le> 2 then Inl TypeError else if n < 0 then Inr []
      else Inr [Ref 0 0, Ref 1 1])"
  by (simp add: most_intense_heatmaps_def sorted_heatmaps_def intensity_key_def heap_of_def
      intro_heatmaps_def intro_video_heatmap_def merge_step_def example_chapter_def
      slice_to_def)

section \<open>The \<^verbatim>\<open>chapters\<close> view\<close>

lemma chapters_unbound: "chapters None H self = Inl NameError"
  by (simp add: chapters_def)

lemma chapters_ignores_self: "chapters g H self = chapters g H self'"
  by (simp add: chapters_def)

text \<open>
  C7 is what the property is meant to do, and the code does not do it: the body reads
  the global name \<^verbatim>\<open>video_heatmap\<close> instead of \<open>self\<close>. On a receiver with three
  chaptered heatmaps the property raises \<^verbatim>\<open>NameError\<close> while the name is unbound, and
  returns the two chapters of another object when the name is bound to that object.
\<close>

theorem chapters_reads_global:
  "chapters None (heap_of three_heatmaps) three_video_heatmap = Inl NameError
   \<and> chapters (Some intro_video_heatmap) (heap_of three_heatmaps) three_video_heatmap
       = Inr [example_chapter ''Intro'' 0 1, example_chapter ''Middle'' 1 2]"
  by (simp add: chapters_def heap_of_def three_heatmaps_def intro_video_heatmap_def)

section \<open>Clip generation\<close>

text \<open>
  A clip whose computed start is not negative: a chapter from 30 to 50 seconds, aligned
  right with length 20, is requested from 10 to 50 seconds.
\<close>

lemma generate_chapter_clips_right_in_range:
  "generate_chapter_clips example_video
     [\<lparr>title = ''My Chapter: Part 1!'', start_time = seconds 30, end_time = seconds 50,
       thumbnails = []\<rparr>]
     (Some right) (Some 20)
   = ([\<lparr>source = ''tmp/videos/v.webm'', target = ''tmp/clips/My_Chapter_Part_1.mp4'',
        t_start = 10, t_end = Some 50\<rparr>], None)"
proof -
  let ?c = "\<lparr>title = ''My Chapter: Part 1!'', start_time = seconds 30, end_time = seconds 50,
       thumbnails = []\<rparr>"
  have t: "chapter_clip_times ?c (Some right) (Some 20) = Inr (seconds 10, seconds 50)"
    by (simp add: chapter_clip_times_def seconds_to_time_def datetime_time_def c_int_def
        time_to_seconds_def seconds_def)
  have n: "valid_filename (title ?c) = ''My_Chapter_Part_1''"
    by (simp add: valid_filename_def strip_def is_space_def is_word_def not_filename_char_def)
  have g: "generate_clip example_video (''v'' @ ''.webm'') (''My_Chapter_Part_1'' @ ''.mp4'')
      (seconds 10) (seconds 50)
    = Inr \<lparr>source = ''tmp/videos/v.webm'', target = ''tmp/clips/My_Chapter_Part_1.mp4'',
        t_start = 10, t_end = Some 50\<rparr>"
    by (simp add: generate_clip_def example_video_def time_to_seconds_def seconds_def
        int_less_number_def)
  have "generate_chapter_clip example_video ?c (Some right) (Some 20)
    = Inr \<lparr>source = ''tmp/videos/v.webm'', target = ''tmp/clips/My_Chapter_Part_1.mp4'',
        t_start = 10, t_end = Some 50\<rparr>"
    unfolding generate_chapter_clip_def t n using g by (simp add: example_video_def)
  then show ?thesis by simp
qed

text \<open>
  The seconds of a time that the constructor accepts are never negative, so the branch
  of \<^verbatim>\<open>generate_clip\<close> that replaces the start by 0 is only taken at midnight.
\<close>

lemma datetime_time_seconds_nonneg:
  "datetime_time h m s = Inr t \<Longrightarrow> 0 \<le> time_to_seconds t"
  by (auto simp: datetime_time_def time_to_seconds_def split: if_splits)

lemma right_aligned_negative_start:
  assumes "l \<noteq> 0" "time_to_seconds (Chapter.start_time c) - l < 0"
  shows "chapter_clip_times c (Some right) (Some l)
           = Inl (if - 7730941132800 \<le> time_to_seconds (Chapter.start_time c) - l
                  then ValueError else OverflowError)"
  using assms by (simp add: chapter_clip_times_def seconds_to_time_int_negative)

text \<open>
  C4 is what the clamp in \<^verbatim>\<open>generate_clip\<close> is meant to do, and the code does not get
  there: for a chapter that starts at 5 seconds, right alignment and length 20, the
  computed start is \<open>- 15\<close> seconds, \<^verbatim>\<open>seconds_to_time\<close> raises \<^verbatim>\<open>ValueError\<close> on it, and no
  clip is requested.
\<close>

theorem generate_chapter_clips_right_negative:
  "generate_chapter_clips example_video
     [\<lparr>title = ''Intro'', start_time = seconds 5, end_time = seconds 50, thumbnails = []\<rparr>]
     (Some right) (Some 20) = ([], Some ValueError)
   \<and> time_to_seconds (seconds 5) - 20 = - 15"
proof -
  let ?c = "\<lparr>title = ''Intro'', start_time = seconds 5, end_time = seconds 50, thumbnails = []\<rparr>"
  have n: "time_to_seconds (Chapter.start_time ?c) - 20 < 0"
    by (simp add: time_to_seconds_def seconds_def)
  have "chapter_clip_times ?c (Some right) (Some 20) = Inl ValueError"
    using right_aligned_negative_start [of 20 ?c] n
    by (simp add: time_to_seconds_def seconds_def)
  then show ?thesis
    by (simp add: generate_chapter_clip_def time_to_seconds_def seconds_def)
qed

end
